theory Spec2Isabelle
  imports Main "HOL-Library.AList"
begin

section \<open>Values, sets and dictionaries of the Python program\<close>

text \<open>
  Symbol references are arbitrary hashable Python values. The program itself uses
  strings (caller symbols), integers (the start symbol \<open>0\<close>, the synthetic symbols and the
  automatically assigned tags), \<open>None\<close> (the root tag) and, through
  \<open>remove_rule(rule)\<close> in \<open>conversion_term_product_determinalizer\<close>, a tuple as a
  member of a rule. A rule is a Python tuple of symbol references, modelled as a list.
\<close>

datatype pyobj = Str string | Num int | Tup "pyobj list" | PyNone

datatype error = KeyError | IndexError

text \<open>
  A Python \<open>set\<close> is modelled as a list without repetitions in insertion order, and a
  \<open>dict\<close> as an association list in insertion order (\<open>AList.update\<close> overwrites in place
  or appends). Python leaves the iteration order of a set unspecified; the loops of the
  model walk these lists from left to right.
\<close>

definition set_add :: "'a \<Rightarrow> 'a list \<Rightarrow> 'a list" where
  "set_add x xs = (if x \<in> set xs then xs else xs @ [x])"

definition keys :: "('k \<times> 'v) list \<Rightarrow> 'k list" where
  "keys d = map fst d"

definition lookup :: "('k \<times> 'v) list \<Rightarrow> 'k \<Rightarrow> error + 'v" where
  "lookup d k = (case map_of d k of None \<Rightarrow> Inl KeyError | Some v \<Rightarrow> Inr v)"

definition bindE :: "error + 'a \<Rightarrow> ('a \<Rightarrow> error + 'b) \<Rightarrow> error + 'b" where
  "bindE m f = (case m of Inl e \<Rightarrow> Inl e | Inr x \<Rightarrow> f x)"

fun foldE :: "('a \<Rightarrow> 's \<Rightarrow> error + 's) \<Rightarrow> 'a list \<Rightarrow> 's \<Rightarrow> error + 's" where
  "foldE f [] s = Inr s"
| "foldE f (x # xs) s = (case f x s of Inl e \<Rightarrow> Inl e | Inr s' \<Rightarrow> foldE f xs s')"

section \<open>BNF\_Symbol\<close>

record BNF_Symbol =
  symbol :: pyobj
  rules :: "pyobj list list"
  parents :: "pyobj list"
  is_terminal :: bool

definition BNF_Symbol_init :: "pyobj \<Rightarrow> bool \<Rightarrow> BNF_Symbol" where
  "BNF_Symbol_init sy is_term =
     \<lparr>symbol = sy, rules = [], parents = [], is_terminal = is_term\<rparr>"

definition BNF_Symbol_add_rule :: "BNF_Symbol \<Rightarrow> pyobj list \<Rightarrow> int \<times> BNF_Symbol" where
  "BNF_Symbol_add_rule s produces =
     (if is_terminal s then (-1, s)
      else (0, s\<lparr>rules := set_add produces (rules s)\<rparr>))"

definition BNF_Symbol_remove_rule :: "BNF_Symbol \<Rightarrow> pyobj list \<Rightarrow> int \<times> BNF_Symbol" where
  "BNF_Symbol_remove_rule s produces =
     (if produces \<notin> set (rules s) then (-1, s)
      else (0, s\<lparr>rules := removeAll produces (rules s)\<rparr>))"

definition BNF_Symbol_remove_parent :: "BNF_Symbol \<Rightarrow> pyobj \<Rightarrow> int \<times> BNF_Symbol" where
  "BNF_Symbol_remove_parent s parent =
     (if parent \<notin> set (parents s) then (-1, s)
      else (0, s\<lparr>parents := removeAll parent (parents s)\<rparr>))"

definition BNF_Symbol_add_parent :: "BNF_Symbol \<Rightarrow> pyobj \<Rightarrow> int \<times> BNF_Symbol" where
  "BNF_Symbol_add_parent s parent_symbol =
     (0, s\<lparr>parents := set_add parent_symbol (parents s)\<rparr>)"

section \<open>BNF: construction\<close>

record BNF =
  start_symbol :: int
  symbols :: "(pyobj \<times> BNF_Symbol) list"
  current_term_replacement :: int
  tags :: "(pyobj \<times> pyobj) list"

definition BNF_init :: BNF where
  "BNF_init = \<lparr>start_symbol = 0, symbols = [(Num 0, BNF_Symbol_init (Num 0) False)],
     current_term_replacement = -1, tags = []\<rparr>"

text \<open>
  \<open>self.symbols[k].m(...)\<close>: the subscript raises \<open>KeyError\<close> when \<open>k\<close> is no key,
  otherwise the method mutates the record stored under \<open>k\<close>.
\<close>

definition on_symbol :: "pyobj \<Rightarrow> (BNF_Symbol \<Rightarrow> int \<times> BNF_Symbol) \<Rightarrow> BNF \<Rightarrow> error + BNF" where
  "on_symbol k m g =
     (case map_of (symbols g) k of
        None \<Rightarrow> Inl KeyError
      | Some s \<Rightarrow> Inr (g\<lparr>symbols := AList.update k (snd (m s)) (symbols g)\<rparr>))"

definition add_symbol :: "BNF \<Rightarrow> pyobj \<Rightarrow> bool \<Rightarrow> int \<times> BNF" where
  "add_symbol g sy is_term =
     (if sy \<in> set (keys (symbols g)) then (-1, g)
      else (0, g\<lparr>symbols := AList.update sy (BNF_Symbol_init sy is_term) (symbols g)\<rparr>))"

definition add_terminal_symbol :: "BNF \<Rightarrow> pyobj \<Rightarrow> int \<times> BNF" where
  "add_terminal_symbol g sy = add_symbol g sy True"

definition add_intermediate_symbol :: "BNF \<Rightarrow> pyobj \<Rightarrow> int \<times> BNF" where
  "add_intermediate_symbol g sy = add_symbol g sy False"

definition add_rule :: "BNF \<Rightarrow> pyobj \<Rightarrow> pyobj list \<Rightarrow> error + (int \<times> BNF)" where
  "add_rule g input_symbol output_symbols_tuple =
     (if input_symbol \<notin> set (keys (symbols g)) then Inr (-3, g)
      else bindE (lookup (symbols g) input_symbol) (\<lambda>s.
        if is_terminal s then Inr (-1, g)
        else if \<exists>x \<in> set output_symbols_tuple. x \<notin> set (keys (symbols g)) then Inr (-2, g)
        else
          bindE (on_symbol input_symbol
                   (\<lambda>s. BNF_Symbol_add_rule s output_symbols_tuple) g) (\<lambda>g1.
          bindE (foldE (\<lambda>x. on_symbol x (\<lambda>s. BNF_Symbol_add_parent s input_symbol))
                   output_symbols_tuple g1) (\<lambda>g2.
          Inr (0, g2)))))"

definition add_rule_to_root :: "BNF \<Rightarrow> pyobj list \<Rightarrow> error + BNF" where
  "add_rule_to_root g rule =
     bindE (on_symbol (Num (start_symbol g)) (\<lambda>s. BNF_Symbol_add_rule s rule) g) (\<lambda>g1.
     foldE (\<lambda>item h. on_symbol item (\<lambda>s. BNF_Symbol_add_parent s (Num (start_symbol h))) h)
       rule g1)"

definition add_tag :: "BNF \<Rightarrow> pyobj \<Rightarrow> pyobj \<Rightarrow> BNF" where
  "add_tag g sy tag = g\<lparr>tags := AList.update sy tag (tags g)\<rparr>"

section \<open>BNF: the conversion steps\<close>

definition does_start_occur_on_right :: "BNF \<Rightarrow> bool" where
  "does_start_occur_on_right g =
     (\<exists>k \<in> set (keys (symbols g)).
        case map_of (symbols g) k of
          None \<Rightarrow> False
        | Some s \<Rightarrow> \<exists>rule \<in> set (rules s). Num (start_symbol g) \<in> set rule)"

definition conversion_start :: "BNF \<Rightarrow> error + BNF" where
  "conversion_start g =
     (if does_start_occur_on_right g then
        let g1 = g\<lparr>start_symbol := start_symbol g + 1\<rparr>;
            g2 = snd (add_intermediate_symbol g1 (Num (start_symbol g1)))
        in bindE (add_rule g2 (Num (start_symbol g2)) [Num (start_symbol g2 - 1)])
             (\<lambda>r. Inr (snd r))
      else Inr g)"

definition conversion_term_replacer :: "BNF \<Rightarrow> pyobj \<Rightarrow> error + (pyobj \<times> BNF)" where
  "conversion_term_replacer g terminal_product =
     (let replacement_id = Num (current_term_replacement g);
          g1 = g\<lparr>current_term_replacement := current_term_replacement g - 1\<rparr>;
          g2 = g1\<lparr>symbols := AList.update replacement_id
                  (BNF_Symbol_init replacement_id False) (symbols g1)\<rparr>
      in bindE (on_symbol replacement_id
                  (\<lambda>s. BNF_Symbol_add_rule s [terminal_product]) g2) (\<lambda>g3.
         bindE (on_symbol terminal_product
                  (\<lambda>s. BNF_Symbol_add_parent s replacement_id) g3) (\<lambda>g4.
         Inr (replacement_id, g4))))"

definition check_if_conversion_term_necessary :: "BNF \<Rightarrow> pyobj list \<Rightarrow> error + bool" where
  "check_if_conversion_term_necessary g rule =
     bindE (foldE (\<lambda>item (has_nonterminals, has_terminals).
                bindE (lookup (symbols g) item) (\<lambda>s.
                  if is_terminal s then Inr (has_nonterminals, True)
                  else Inr (True, has_terminals)))
              rule (False, False))
       (\<lambda>(has_nonterminals, has_terminals). Inr (has_nonterminals \<and> has_terminals))"

text \<open>
  \<open>self.symbols[parent_symbol].remove_rule(rule)\<close> passes the tuple as the one
  positional argument, so \<open>produces\<close> is the 1-tuple \<open>(rule,)\<close>.
\<close>

definition conversion_term_product_determinalizer ::
    "BNF \<Rightarrow> pyobj \<Rightarrow> pyobj list \<Rightarrow> error + BNF" where
  "conversion_term_product_determinalizer g parent_symbol rule =
     bindE (foldE (\<lambda>item (replaced, g).
                bindE (lookup (symbols g) item) (\<lambda>s.
                  if is_terminal s
                  then bindE (conversion_term_replacer g item) (\<lambda>r. Inr (True, snd r))
                  else Inr (replaced, g)))
              rule (False, g))
       (\<lambda>(replaced, g1).
          if replaced
          then on_symbol parent_symbol (\<lambda>s. BNF_Symbol_remove_rule s [Tup rule]) g1
          else Inr g1)"

definition conversion_term :: "BNF \<Rightarrow> error + BNF" where
  "conversion_term g =
     foldE (\<lambda>sy g.
        bindE (lookup (symbols g) sy) (\<lambda>s.
          foldE (\<lambda>rule g.
             bindE (check_if_conversion_term_necessary g rule) (\<lambda>necessary.
               if necessary then conversion_term_product_determinalizer g sy rule
               else Inr g))
            (rules s) g))
       (keys (symbols g)) g"

definition conversion_bin_splitter ::
    "BNF \<Rightarrow> pyobj \<Rightarrow> pyobj list \<Rightarrow> error + ((pyobj \<times> pyobj \<times> pyobj) list \<times> BNF)" where
  "conversion_bin_splitter g parent_symbol rule =
     (let replacement_id = current_term_replacement g;
          g1 = g\<lparr>current_term_replacement := current_term_replacement g - 1\<rparr>;
          (replacements, previous_replacement_id, replacement_id, g2) =
            fold (\<lambda>item (replacements, previous_replacement_id, replacement_id, g).
                    let g' = snd (add_symbol g (Num replacement_id) False)
                    in (set_add (previous_replacement_id, item, Num replacement_id) replacements,
                        Num replacement_id,
                        current_term_replacement g',
                        g'\<lparr>current_term_replacement := current_term_replacement g' - 1\<rparr>))
              (take (length rule - 2) rule)
              ([], parent_symbol, replacement_id, g1)
      in if length rule < 2 then Inl IndexError
         else Inr (set_add (previous_replacement_id, rule ! (length rule - 2), last rule)
                     replacements, g2))"

definition is_bin_applicable :: "pyobj list \<Rightarrow> bool" where
  "is_bin_applicable rule = (length rule > 2)"

definition is_only_subrule_with_daughter :: "BNF \<Rightarrow> pyobj \<Rightarrow> pyobj \<Rightarrow> error + bool" where
  "is_only_subrule_with_daughter g parent_symbol daughter_symbol =
     bindE (lookup (symbols g) parent_symbol) (\<lambda>s.
       Inr (\<not> (\<exists>rule \<in> set (rules s). daughter_symbol \<in> set rule \<and> length rule > 1)))"

definition conversion_bin :: "BNF \<Rightarrow> error + BNF" where
  "conversion_bin g =
     foldE (\<lambda>sy g.
        bindE (lookup (symbols g) sy) (\<lambda>s.
          foldE (\<lambda>rule g.
             if is_bin_applicable rule then
               bindE (conversion_bin_splitter g sy rule) (\<lambda>(replacements, g1).
               bindE (foldE (\<lambda>(parent, symbol1, symbol2) g.
                         bindE (on_symbol parent
                                  (\<lambda>s. BNF_Symbol_add_rule s [symbol1, symbol2]) g) (\<lambda>g.
                         bindE (on_symbol symbol1
                                  (\<lambda>s. BNF_Symbol_add_parent s parent) g) (\<lambda>g.
                         on_symbol symbol2 (\<lambda>s. BNF_Symbol_add_parent s parent) g)))
                       replacements g1) (\<lambda>g2.
               bindE (on_symbol sy (\<lambda>s. BNF_Symbol_remove_rule s rule) g2) (\<lambda>g3.
               foldE (\<lambda>item g.
                  bindE (is_only_subrule_with_daughter g sy item) (\<lambda>only.
                    if only then on_symbol item (\<lambda>s. BNF_Symbol_remove_parent s sy) g
                    else Inr g))
                 rule g3)))
             else Inr g)
            (rules s) g))
       (keys (symbols g)) g"

definition conversion_del :: "BNF \<Rightarrow> error + BNF" where
  "conversion_del g = Inr g"

text \<open>
  In \<open>conversion_unit\<close> the inner loop walks the live rule set of \<open>rule[0]\<close> while it adds
  to the rule set of \<open>symbol\<close>. When the two are the same set every rule added is already
  in it, so the set never changes during the walk, and the model walks the rules read at
  the start of the inner loop.
\<close>

definition conversion_unit :: "BNF \<Rightarrow> error + BNF" where
  "conversion_unit g =
     bindE (foldE (\<lambda>sy (unit_rule_products, g).
               bindE (lookup (symbols g) sy) (\<lambda>s.
                 foldE (\<lambda>rule (unit_rule_products, g).
                    if length rule = 1 then
                      bindE (lookup (symbols g) (rule ! 0)) (\<lambda>t.
                        if \<not> is_terminal t then
                          bindE (foldE (\<lambda>subrule g.
                                    on_symbol sy (\<lambda>s. BNF_Symbol_add_rule s subrule) g)
                                  (rules t) g) (\<lambda>g'.
                          Inr (set_add (sy, rule ! 0) unit_rule_products, g'))
                        else Inr (unit_rule_products, g))
                    else Inr (unit_rule_products, g))
                   (rules s) (unit_rule_products, g)))
             (keys (symbols g)) ([], g))
       (\<lambda>(unit_rule_products, g1).
          foldE (\<lambda>(parent, product) g.
             bindE (on_symbol parent (\<lambda>s. BNF_Symbol_remove_rule s [product]) g) (\<lambda>g.
             bindE (is_only_subrule_with_daughter g parent product) (\<lambda>only.
               if only then on_symbol product (\<lambda>s. BNF_Symbol_remove_parent s parent) g
               else Inr g)))
            unit_rule_products g1)"

text \<open>
  \<open>check_if_cnf\<close> returns \<open>False\<close> at the first rule that breaks the shape; a rule of
  length zero passes every branch.
\<close>

fun check_rules :: "BNF \<Rightarrow> pyobj list list \<Rightarrow> error + bool" where
  "check_rules g [] = Inr True"
| "check_rules g (rule # rest) =
     (if length rule > 2 then Inr False
      else if length rule = 2 then
        bindE (lookup (symbols g) (rule ! 0)) (\<lambda>s0.
          if is_terminal s0 then Inr False
          else bindE (lookup (symbols g) (rule ! 1)) (\<lambda>s1.
            if is_terminal s1 then Inr False else check_rules g rest))
      else if length rule = 1 then
        bindE (lookup (symbols g) (rule ! 0)) (\<lambda>s0.
          if \<not> is_terminal s0 then Inr False else check_rules g rest)
      else check_rules g rest)"

definition all_rules :: "BNF \<Rightarrow> pyobj list list" where
  "all_rules g =
     concat (map (\<lambda>k. case map_of (symbols g) k of None \<Rightarrow> [] | Some s \<Rightarrow> rules s)
               (keys (symbols g)))"

definition check_if_cnf :: "BNF \<Rightarrow> error + bool" where
  "check_if_cnf g = check_rules g (all_rules g)"

definition conversion_pass :: "BNF \<Rightarrow> error + BNF" where
  "conversion_pass g =
     bindE (conversion_start g) (\<lambda>g.
     bindE (conversion_term g) (\<lambda>g.
     bindE (conversion_bin g) (\<lambda>g.
     bindE (conversion_del g) (\<lambda>g.
     conversion_unit g))))"

text \<open>
  The \<open>while\<close> loop of \<open>convert_to_cnf\<close>. It may run forever, so it is a partial
  function: \<open>None\<close> is the loop that never exits, \<open>Some (Inl e)\<close> an exception raised
  inside it, \<open>Some (Inr g)\<close> the grammar it leaves behind.
\<close>

partial_function (option) convert_loop :: "BNF \<Rightarrow> (error + BNF) option" where
  "convert_loop g =
     (case check_if_cnf g of
        Inl e \<Rightarrow> Some (Inl e)
      | Inr is_cnf \<Rightarrow>
          if is_cnf then Some (Inr g)
          else (case conversion_pass g of
                  Inl e \<Rightarrow> Some (Inl e)
                | Inr g' \<Rightarrow> convert_loop g'))"

section \<open>PhraseStructure\<close>

text \<open>
  Modelled from the spec: the class \<open>PhraseStructure\<close> of \<open>phrase_structure.py\<close>, which
  is not among the sources. The spec describes the CNF grammar as a collection of symbol
  records (terminal flag, rule set, parent set) in which every rule registered under a
  parent records the parent in the parent set of each member; \<open>bnf.py\<close> calls its
  \<open>add_symbol\<close>, \<open>add_intermediate_rule\<close> and \<open>add_terminal_rule\<close>, and \<open>cyk.py\<close> reads
  \<open>symbols[k].get_parents()\<close> and \<open>symbols[k].get_rules()\<close>.
\<close>

record PhraseStructure =
  ps_symbols :: "(pyobj \<times> BNF_Symbol) list"

definition PhraseStructure_init :: PhraseStructure where
  "PhraseStructure_init = \<lparr>ps_symbols = []\<rparr>"

text \<open>
  Modelled from the spec: the subscript \<open>phrase_structure.symbols[k]\<close> that \<open>cyk.py\<close> reads.
  The spec says that a symbol absent from the grammar has an empty parent set at its
  position and that reading it must not raise an error; so the subscript is total, and for
  a symbol that is not in the table it gives a record with no rule and no parent.
\<close>

definition ps_symbol :: "PhraseStructure \<Rightarrow> pyobj \<Rightarrow> BNF_Symbol" where
  "ps_symbol ps k =
     (case map_of (ps_symbols ps) k of
        None \<Rightarrow> BNF_Symbol_init k True
      | Some s \<Rightarrow> s)"

definition on_ps_symbol ::
    "pyobj \<Rightarrow> (BNF_Symbol \<Rightarrow> BNF_Symbol) \<Rightarrow> PhraseStructure \<Rightarrow> error + PhraseStructure" where
  "on_ps_symbol k m ps =
     (case map_of (ps_symbols ps) k of
        None \<Rightarrow> Inl KeyError
      | Some s \<Rightarrow> Inr (ps\<lparr>ps_symbols := AList.update k (m s) (ps_symbols ps)\<rparr>))"

definition PhraseStructure_add_symbol :: "PhraseStructure \<Rightarrow> pyobj \<Rightarrow> bool \<Rightarrow> PhraseStructure" where
  "PhraseStructure_add_symbol ps sy is_term =
     (if sy \<in> set (keys (ps_symbols ps)) then ps
      else ps\<lparr>ps_symbols := AList.update sy (BNF_Symbol_init sy is_term) (ps_symbols ps)\<rparr>)"

definition add_intermediate_rule ::
    "PhraseStructure \<Rightarrow> pyobj \<Rightarrow> pyobj \<Rightarrow> pyobj \<Rightarrow> error + PhraseStructure" where
  "add_intermediate_rule ps parent symbol1 symbol2 =
     bindE (on_ps_symbol parent (\<lambda>s. s\<lparr>rules := set_add [symbol1, symbol2] (rules s)\<rparr>) ps) (\<lambda>ps.
     bindE (on_ps_symbol symbol1 (\<lambda>s. s\<lparr>parents := set_add parent (parents s)\<rparr>) ps) (\<lambda>ps.
     on_ps_symbol symbol2 (\<lambda>s. s\<lparr>parents := set_add parent (parents s)\<rparr>) ps))"

definition add_terminal_rule ::
    "PhraseStructure \<Rightarrow> pyobj \<Rightarrow> pyobj \<Rightarrow> error + PhraseStructure" where
  "add_terminal_rule ps parent symbol1 =
     bindE (on_ps_symbol parent (\<lambda>s. s\<lparr>rules := set_add [symbol1] (rules s)\<rparr>) ps) (\<lambda>ps.
     on_ps_symbol symbol1 (\<lambda>s. s\<lparr>parents := set_add parent (parents s)\<rparr>) ps)"

section \<open>BNF: tags and the PhraseStructure of the converted grammar\<close>

text \<open>
  The inner \<open>while tag in self.tags.values(): tag += 1\<close> of \<open>set_unset_tags\<close>. It ends
  because each step passes one of the finitely many integer tag values.
\<close>

function next_free_tag :: "pyobj list \<Rightarrow> int \<Rightarrow> int" where
  "next_free_tag vals tag = (if Num tag \<in> set vals then next_free_tag vals (tag + 1) else tag)"
  by pat_completeness auto
termination
proof (relation "measure (\<lambda>(vals, tag).
          length (filter (\<lambda>v. case v of Num m \<Rightarrow> tag \<le> m | _ \<Rightarrow> False) vals))")
  show "wf (measure (\<lambda>(vals, tag).
          length (filter (\<lambda>v. case v of Num m \<Rightarrow> tag \<le> m | _ \<Rightarrow> False) vals)))"
    by simp
next
  fix vals :: "pyobj list" and tag :: int
  assume mem: "Num tag \<in> set vals"
  let ?P = "\<lambda>v. case v of Num m \<Rightarrow> tag \<le> m | _ \<Rightarrow> False"
  let ?Q = "\<lambda>v. case v of Num m \<Rightarrow> tag + 1 \<le> m | _ \<Rightarrow> False"
  have eq: "filter ?Q vals = filter ?Q (filter ?P vals)"
    by (induction vals) (auto split: pyobj.splits)
  have "Num tag \<in> set (filter ?P vals)" using mem by simp
  moreover have "\<not> ?Q (Num tag)" by simp
  ultimately have "length (filter ?Q (filter ?P vals)) < length (filter ?P vals)"
    by (rule length_filter_less)
  with eq show "((vals, tag + 1), (vals, tag)) \<in> measure (\<lambda>(vals, tag).
          length (filter (\<lambda>v. case v of Num m \<Rightarrow> tag \<le> m | _ \<Rightarrow> False) vals))"
    by simp
qed

definition reset_start_symbol_for_cnf :: "BNF \<Rightarrow> BNF" where
  "reset_start_symbol_for_cnf g =
     g\<lparr>tags := AList.update (Num (start_symbol g)) PyNone (tags g)\<rparr>"

definition set_unset_tags :: "BNF \<Rightarrow> BNF" where
  "set_unset_tags g =
     (let (tag, g1) =
            fold (\<lambda>sy (tag, g).
                    if sy \<notin> set (keys (tags g)) then
                      let tag' = next_free_tag (map snd (tags g)) tag
                      in (tag', g\<lparr>tags := AList.update sy (Num tag') (tags g)\<rparr>)
                    else (tag, g))
              (keys (symbols g)) (0, g)
      in reset_start_symbol_for_cnf g1)"

definition create_phrase_structure :: "BNF \<Rightarrow> error + PhraseStructure" where
  "create_phrase_structure g0 =
     (let g = set_unset_tags g0 in
      bindE (foldE (\<lambda>sy ps.
                bindE (lookup (tags g) sy) (\<lambda>symbol_tag.
                bindE (lookup (symbols g) sy) (\<lambda>s.
                Inr (PhraseStructure_add_symbol ps symbol_tag (is_terminal s)))))
              (keys (symbols g)) PhraseStructure_init) (\<lambda>ps1.
      foldE (\<lambda>sy ps.
         bindE (lookup (tags g) sy) (\<lambda>symbol_tag.
         bindE (lookup (symbols g) sy) (\<lambda>s.
           foldE (\<lambda>rule ps.
              if length rule = 2 then
                bindE (lookup (tags g) (rule ! 0)) (\<lambda>t0.
                bindE (lookup (tags g) (rule ! 1)) (\<lambda>t1.
                add_intermediate_rule ps symbol_tag t0 t1))
              else if length rule = 1 then
                bindE (lookup (tags g) (rule ! 0)) (\<lambda>t0.
                add_terminal_rule ps symbol_tag t0)
              else Inr ps)
             (rules s) ps)))
        (keys (symbols g)) ps1))"

definition convert_to_cnf :: "BNF \<Rightarrow> (error + PhraseStructure) option" where
  "convert_to_cnf g =
     (case convert_loop g of
        None \<Rightarrow> None
      | Some (Inl e) \<Rightarrow> Some (Inl e)
      | Some (Inr g') \<Rightarrow> Some (create_phrase_structure g'))"

section \<open>CYK\<close>

definition generate_cyk_table :: "nat \<Rightarrow> pyobj list list list" where
  "generate_cyk_table sz = map (\<lambda>i. replicate (sz - i) []) [0..<sz]"

definition get_cell :: "pyobj list list list \<Rightarrow> nat \<Rightarrow> nat \<Rightarrow> error + pyobj list" where
  "get_cell t i j =
     (if i < length t \<and> j < length (t ! i) then Inr (t ! i ! j) else Inl IndexError)"

definition cell_add ::
    "pyobj list list list \<Rightarrow> nat \<Rightarrow> nat \<Rightarrow> pyobj \<Rightarrow> error + pyobj list list list" where
  "cell_add t i j x =
     (if i < length t \<and> j < length (t ! i)
      then Inr (t[i := (t ! i)[j := set_add x (t ! i ! j)]])
      else Inl IndexError)"

definition get_cyk_pairs ::
    "pyobj list list list \<Rightarrow> nat \<Rightarrow> nat \<Rightarrow> error + (pyobj \<times> pyobj) list" where
  "get_cyk_pairs t row column =
     foldE (\<lambda>left_i pairs.
        let left_j = column;
            right_j = column + left_i + 1;
            right_i = row - left_i - 1
        in bindE (get_cell t left_i left_j) (\<lambda>cell1.
             foldE (\<lambda>item1 pairs.
                bindE (get_cell t right_i right_j) (\<lambda>cell2.
                  Inr (fold (\<lambda>item2 pairs. set_add (item1, item2) pairs) cell2 pairs)))
               cell1 pairs))
       [0..<row] []"

definition get_common_parents :: "PhraseStructure \<Rightarrow> pyobj \<Rightarrow> pyobj \<Rightarrow> pyobj list" where
  "get_common_parents ps item1 item2 =
     (let parents1 = parents (ps_symbol ps item1);
          parents2 = parents (ps_symbol ps item2)
      in filter (\<lambda>p. p \<in> set parents2) parents1)"

definition fill_cyk_row ::
    "PhraseStructure \<Rightarrow> nat \<Rightarrow> pyobj list list list \<Rightarrow> error + pyobj list list list" where
  "fill_cyk_row ps row t =
     (if \<not> row < length t then Inl IndexError
      else
        foldE (\<lambda>column t.
           bindE (get_cyk_pairs t row column) (\<lambda>pairs.
             foldE (\<lambda>(item1, item2) t.
                foldE (\<lambda>parent t.
                   if [item1, item2] \<in> set (rules (ps_symbol ps parent))
                   then cell_add t row column parent
                   else Inr t)
                  (get_common_parents ps item1 item2) t)
               pairs t))
          [0..<length (t ! row)] t)"

definition fits_grammar :: "PhraseStructure \<Rightarrow> pyobj list \<Rightarrow> error + bool" where
  "fits_grammar ps symbol_list =
     (let sz = length symbol_list in
      bindE (foldE (\<lambda>column t.
                foldE (\<lambda>parent t. cell_add t 0 column parent)
                  (parents (ps_symbol ps (symbol_list ! column))) t)
              [0..<sz] (generate_cyk_table sz)) (\<lambda>t1.
      bindE (foldE (\<lambda>row t. fill_cyk_row ps row t) [1..<sz] t1) (\<lambda>t2.
      if t2 = [] then Inl IndexError
      else bindE (get_cell t2 (length t2 - 1) 0) (\<lambda>head.
        Inr (PyNone \<in> set head)))))"

section \<open>Construction scripts and example grammars\<close>

text \<open>
  A caller builds a grammar by a sequence of the public construction calls on a fresh
  \<open>BNF()\<close>; \<open>add_terminal_symbol\<close> and \<open>add_intermediate_symbol\<close> are \<open>add_symbol\<close> with
  the flag fixed. \<open>Symbol_add_rule k r\<close> is \<open>g.symbols[k].add_rule(*r)\<close>, a method of
  \<open>BNF_Symbol\<close> called on a record of the grammar, and likewise the other three.
\<close>

datatype call =
    Add_symbol pyobj bool
  | Add_rule pyobj "pyobj list"
  | Add_rule_to_root "pyobj list"
  | Add_tag pyobj pyobj
  | Symbol_add_rule pyobj "pyobj list"
  | Symbol_remove_rule pyobj "pyobj list"
  | Symbol_add_parent pyobj pyobj
  | Symbol_remove_parent pyobj pyobj

fun run_call :: "call \<Rightarrow> BNF \<Rightarrow> error + BNF" where
  "run_call (Add_symbol sy is_term) g = Inr (snd (add_symbol g sy is_term))"
| "run_call (Add_rule input_symbol output_symbols_tuple) g =
     bindE (add_rule g input_symbol output_symbols_tuple) (\<lambda>r. Inr (snd r))"
| "run_call (Add_rule_to_root rule) g = add_rule_to_root g rule"
| "run_call (Add_tag sy tag) g = Inr (add_tag g sy tag)"
| "run_call (Symbol_add_rule k produces) g =
     on_symbol k (\<lambda>s. BNF_Symbol_add_rule s produces) g"
| "run_call (Symbol_remove_rule k produces) g =
     on_symbol k (\<lambda>s. BNF_Symbol_remove_rule s produces) g"
| "run_call (Symbol_add_parent k parent_symbol) g =
     on_symbol k (\<lambda>s. BNF_Symbol_add_parent s parent_symbol) g"
| "run_call (Symbol_remove_parent k parent) g =
     on_symbol k (\<lambda>s. BNF_Symbol_remove_parent s parent) g"

definition construct :: "call list \<Rightarrow> error + BNF" where
  "construct cs = foldE run_call cs BNF_init"

text \<open>The grammar \<open>S -> A B\<close>, \<open>A -> "a"\<close>, \<open>B -> "b"\<close> of the spec, with \<open>S\<close> the start symbol \<open>0\<close>.\<close>

definition calls_ab :: "call list" where
  "calls_ab = [Add_symbol (Str ''A'') False, Add_symbol (Str ''B'') False,
     Add_symbol (Str ''a'') True, Add_symbol (Str ''b'') True,
     Add_rule (Num 0) [Str ''A'', Str ''B''], Add_rule (Str ''A'') [Str ''a''],
     Add_rule (Str ''B'') [Str ''b'']]"

definition grammar_ab :: BNF where
  "grammar_ab = \<lparr>start_symbol = 0,
    symbols =
      [(Num 0, \<lparr>symbol = Num 0, rules = [[Str ''A'', Str ''B'']], parents = [],
           is_terminal = False\<rparr>),
       (Str ''A'', \<lparr>symbol = Str ''A'', rules = [[Str ''a'']], parents = [Num 0],
           is_terminal = False\<rparr>),
       (Str ''B'', \<lparr>symbol = Str ''B'', rules = [[Str ''b'']], parents = [Num 0],
           is_terminal = False\<rparr>),
       (Str ''a'', \<lparr>symbol = Str ''a'', rules = [], parents = [Str ''A''],
           is_terminal = True\<rparr>),
       (Str ''b'', \<lparr>symbol = Str ''b'', rules = [], parents = [Str ''B''],
           is_terminal = True\<rparr>)],
    current_term_replacement = - 1, tags = []\<rparr>"

text \<open>
  The same grammar with every caller symbol tagged by itself, so that the PhraseStructure
  is keyed by the caller's own symbols, and the PhraseStructure \<open>convert_to_cnf\<close> returns
  for it: the start symbol is tagged \<open>None\<close>.
\<close>

definition calls_ab_tagged :: "call list" where
  "calls_ab_tagged = calls_ab @
     [Add_tag (Str ''A'') (Str ''A''), Add_tag (Str ''B'') (Str ''B''),
      Add_tag (Str ''a'') (Str ''a''), Add_tag (Str ''b'') (Str ''b'')]"

definition grammar_ab_tagged :: BNF where
  "grammar_ab_tagged = grammar_ab\<lparr>tags :=
     [(Str ''A'', Str ''A''), (Str ''B'', Str ''B''),
      (Str ''a'', Str ''a''), (Str ''b'', Str ''b'')]\<rparr>"

definition cnf_ab :: PhraseStructure where
  "cnf_ab = \<lparr>ps_symbols =
      [(PyNone, \<lparr>symbol = PyNone, rules = [[Str ''A'', Str ''B'']], parents = [],
           is_terminal = False\<rparr>),
       (Str ''A'', \<lparr>symbol = Str ''A'', rules = [[Str ''a'']], parents = [PyNone],
           is_terminal = False\<rparr>),
       (Str ''B'', \<lparr>symbol = Str ''B'', rules = [[Str ''b'']], parents = [PyNone],
           is_terminal = False\<rparr>),
       (Str ''a'', \<lparr>symbol = Str ''a'', rules = [], parents = [Str ''A''],
           is_terminal = True\<rparr>),
       (Str ''b'', \<lparr>symbol = Str ''b'', rules = [], parents = [Str ''B''],
           is_terminal = True\<rparr>)]\<rparr>"

text \<open>\<open>S -> A "a"\<close>, \<open>A -> "a"\<close>: a rule that mixes a non-terminal and a terminal.\<close>

definition calls_mixed :: "call list" where
  "calls_mixed = [Add_symbol (Str ''A'') False, Add_symbol (Str ''a'') True,
     Add_rule (Num 0) [Str ''A'', Str ''a''], Add_rule (Str ''A'') [Str ''a'']]"

definition grammar_mixed :: BNF where
  "grammar_mixed = \<lparr>start_symbol = 0,
    symbols =
      [(Num 0, \<lparr>symbol = Num 0, rules = [[Str ''A'', Str ''a'']], parents = [],
           is_terminal = False\<rparr>),
       (Str ''A'', \<lparr>symbol = Str ''A'', rules = [[Str ''a'']], parents = [Num 0],
           is_terminal = False\<rparr>),
       (Str ''a'', \<lparr>symbol = Str ''a'', rules = [], parents = [Num 0, Str ''A''],
           is_terminal = True\<rparr>)],
    current_term_replacement = - 1, tags = []\<rparr>"

definition grammar_mixed_term :: BNF where
  "grammar_mixed_term = \<lparr>start_symbol = 0,
    symbols =
      [(Num 0, \<lparr>symbol = Num 0, rules = [[Str ''A'', Str ''a'']], parents = [],
           is_terminal = False\<rparr>),
       (Str ''A'', \<lparr>symbol = Str ''A'', rules = [[Str ''a'']], parents = [Num 0],
           is_terminal = False\<rparr>),
       (Str ''a'', \<lparr>symbol = Str ''a'', rules = [],
           parents = [Num 0, Str ''A'', Num (- 1)], is_terminal = True\<rparr>),
       (Num (- 1), \<lparr>symbol = Num (- 1), rules = [[Str ''a'']], parents = [],
           is_terminal = False\<rparr>)],
    current_term_replacement = - 2, tags = []\<rparr>"

text \<open>\<open>S -> X\<close>, \<open>X -> "a"\<close>: the unit-rule chain of the spec.\<close>

definition calls_unit :: "call list" where
  "calls_unit = [Add_symbol (Str ''X'') False, Add_symbol (Str ''a'') True,
     Add_rule (Num 0) [Str ''X''], Add_rule (Str ''X'') [Str ''a'']]"

definition grammar_unit :: BNF where
  "grammar_unit = \<lparr>start_symbol = 0,
    symbols =
      [(Num 0, \<lparr>symbol = Num 0, rules = [[Str ''X'']], parents = [],
           is_terminal = False\<rparr>),
       (Str ''X'', \<lparr>symbol = Str ''X'', rules = [[Str ''a'']], parents = [Num 0],
           is_terminal = False\<rparr>),
       (Str ''a'', \<lparr>symbol = Str ''a'', rules = [], parents = [Str ''X''],
           is_terminal = True\<rparr>)],
    current_term_replacement = - 1, tags = []\<rparr>"

definition grammar_unit_inlined :: BNF where
  "grammar_unit_inlined = \<lparr>start_symbol = 0,
    symbols =
      [(Num 0, \<lparr>symbol = Num 0, rules = [[Str ''a'']], parents = [],
           is_terminal = False\<rparr>),
       (Str ''X'', \<lparr>symbol = Str ''X'', rules = [[Str ''a'']], parents = [],
           is_terminal = False\<rparr>),
       (Str ''a'', \<lparr>symbol = Str ''a'', rules = [], parents = [Str ''X''],
           is_terminal = True\<rparr>)],
    current_term_replacement = - 1, tags = []\<rparr>"

text \<open>\<open>S -> A B C\<close> and \<open>S -> B\<close>: a long rule beside a unit rule with the same daughter.\<close>

definition calls_long :: "call list" where
  "calls_long = [Add_symbol (Str ''A'') False, Add_symbol (Str ''B'') False,
     Add_symbol (Str ''C'') False,
     Add_rule (Num 0) [Str ''A'', Str ''B'', Str ''C''], Add_rule (Num 0) [Str ''B'']]"

definition grammar_long :: BNF where
  "grammar_long = \<lparr>start_symbol = 0,
    symbols =
      [(Num 0, \<lparr>symbol = Num 0, rules = [[Str ''A'', Str ''B'', Str ''C''], [Str ''B'']],
           parents = [], is_terminal = False\<rparr>),
       (Str ''A'', \<lparr>symbol = Str ''A'', rules = [], parents = [Num 0],
           is_terminal = False\<rparr>),
       (Str ''B'', \<lparr>symbol = Str ''B'', rules = [], parents = [Num 0],
           is_terminal = False\<rparr>),
       (Str ''C'', \<lparr>symbol = Str ''C'', rules = [], parents = [Num 0],
           is_terminal = False\<rparr>)],
    current_term_replacement = - 1, tags = []\<rparr>"

definition grammar_long_bin :: BNF where
  "grammar_long_bin = \<lparr>start_symbol = 0,
    symbols =
      [(Num 0, \<lparr>symbol = Num 0, rules = [[Str ''B''], [Str ''A'', Num (- 1)]],
           parents = [], is_terminal = False\<rparr>),
       (Str ''A'', \<lparr>symbol = Str ''A'', rules = [], parents = [Num 0],
           is_terminal = False\<rparr>),
       (Str ''B'', \<lparr>symbol = Str ''B'', rules = [], parents = [Num (- 1)],
           is_terminal = False\<rparr>),
       (Str ''C'', \<lparr>symbol = Str ''C'', rules = [], parents = [Num (- 1)],
           is_terminal = False\<rparr>),
       (Num (- 1), \<lparr>symbol = Num (- 1), rules = [[Str ''B'', Str ''C'']],
           parents = [Num 0], is_terminal = False\<rparr>)],
    current_term_replacement = - 3, tags = []\<rparr>"

text \<open>\<open>S -> "a" "b"\<close>: a rule of two terminals.\<close>

definition calls_terminals :: "call list" where
  "calls_terminals = [Add_symbol (Str ''a'') True, Add_symbol (Str ''b'') True,
     Add_rule (Num 0) [Str ''a'', Str ''b'']]"

definition grammar_terminals :: BNF where
  "grammar_terminals = \<lparr>start_symbol = 0,
    symbols =
      [(Num 0, \<lparr>symbol = Num 0, rules = [[Str ''a'', Str ''b'']], parents = [],
           is_terminal = False\<rparr>),
       (Str ''a'', \<lparr>symbol = Str ''a'', rules = [], parents = [Num 0],
           is_terminal = True\<rparr>),
       (Str ''b'', \<lparr>symbol = Str ''b'', rules = [], parents = [Num 0],
           is_terminal = True\<rparr>)],
    current_term_replacement = - 1, tags = []\<rparr>"

text \<open>The grammar after \<open>add_rule(0, ())\<close> on a fresh \<open>BNF()\<close>.\<close>

definition grammar_eps :: BNF where
  "grammar_eps = \<lparr>start_symbol = 0,
     symbols = [(Num 0, \<lparr>symbol = Num 0, rules = [[]], parents = [], is_terminal = False\<rparr>)],
     current_term_replacement = - 1, tags = []\<rparr>"

text \<open>
  A caller who declares the integer \<open>-1\<close> as a terminal symbol, beside \<open>S -> A "a"\<close>, and
  the grammar after \<open>conversion_term\<close>.
\<close>

definition calls_clash :: "call list" where
  "calls_clash = [Add_symbol (Num (- 1)) True, Add_symbol (Str ''A'') False,
     Add_symbol (Str ''a'') True, Add_rule (Num 0) [Str ''A'', Str ''a'']]"

definition grammar_clash :: BNF where
  "grammar_clash = \<lparr>start_symbol = 0,
    symbols =
      [(Num 0, \<lparr>symbol = Num 0, rules = [[Str ''A'', Str ''a'']], parents = [],
           is_terminal = False\<rparr>),
       (Num (- 1), \<lparr>symbol = Num (- 1), rules = [], parents = [], is_terminal = True\<rparr>),
       (Str ''A'', \<lparr>symbol = Str ''A'', rules = [], parents = [Num 0],
           is_terminal = False\<rparr>),
       (Str ''a'', \<lparr>symbol = Str ''a'', rules = [], parents = [Num 0],
           is_terminal = True\<rparr>)],
    current_term_replacement = - 1, tags = []\<rparr>"

definition grammar_clash_term :: BNF where
  "grammar_clash_term = \<lparr>start_symbol = 0,
    symbols =
      [(Num 0, \<lparr>symbol = Num 0, rules = [[Str ''A'', Str ''a'']], parents = [],
           is_terminal = False\<rparr>),
       (Num (- 1), \<lparr>symbol = Num (- 1), rules = [[Str ''a'']], parents = [],
           is_terminal = False\<rparr>),
       (Str ''A'', \<lparr>symbol = Str ''A'', rules = [], parents = [Num 0],
           is_terminal = False\<rparr>),
       (Str ''a'', \<lparr>symbol = Str ''a'', rules = [], parents = [Num 0, Num (- 1)],
           is_terminal = True\<rparr>)],
    current_term_replacement = - 2, tags = []\<rparr>"

text \<open>\<open>grammar_mixed_term\<close> after \<open>conversion_term_replacer("a")\<close>.\<close>

definition grammar_mixed_replaced :: BNF where
  "grammar_mixed_replaced = \<lparr>start_symbol = 0,
    symbols =
      [(Num 0, \<lparr>symbol = Num 0, rules = [[Str ''A'', Str ''a'']], parents = [],
           is_terminal = False\<rparr>),
       (Str ''A'', \<lparr>symbol = Str ''A'', rules = [[Str ''a'']], parents = [Num 0],
           is_terminal = False\<rparr>),
       (Str ''a'', \<lparr>symbol = Str ''a'', rules = [],
           parents = [Num 0, Str ''A'', Num (- 1), Num (- 2)], is_terminal = True\<rparr>),
       (Num (- 1), \<lparr>symbol = Num (- 1), rules = [[Str ''a'']], parents = [],
           is_terminal = False\<rparr>),
       (Num (- 2), \<lparr>symbol = Num (- 2), rules = [[Str ''a'']], parents = [],
           is_terminal = False\<rparr>)],
    current_term_replacement = - 3, tags = []\<rparr>"

section \<open>Notions used in the statements\<close>

text \<open>No symbol holds a rule of arity zero.\<close>

definition no_empty_rule :: "BNF \<Rightarrow> bool" where
  "no_empty_rule g \<longleftrightarrow> (\<forall>k s. map_of (symbols g) k = Some s \<longrightarrow> [] \<notin> set (rules s))"

text \<open>
  The integer keys of the symbol table lie between the two allocators: above
  \<open>current_term_replacement\<close>, which only decreases from \<open>-1\<close>, and up to \<open>start_symbol\<close>,
  which only increases from \<open>0\<close>.
\<close>

definition namespaces_apart :: "BNF \<Rightarrow> bool" where
  "namespaces_apart g \<longleftrightarrow>
     current_term_replacement g < 0 \<and> 0 \<le> start_symbol g \<and>
     (\<forall>n. Num n \<in> set (keys (symbols g)) \<longrightarrow>
        current_term_replacement g < n \<and> n \<le> start_symbol g)"

text \<open>
  Restrictions on the caller: no rule with an empty member sequence, through any of the
  three methods that register a rule; no integer as a symbol.
\<close>

definition nonempty_rule_call :: "call \<Rightarrow> bool" where
  "nonempty_rule_call c =
     (case c of
        Add_rule p ms \<Rightarrow> ms \<noteq> []
      | Add_rule_to_root ms \<Rightarrow> ms \<noteq> []
      | Symbol_add_rule k ms \<Rightarrow> ms \<noteq> []
      | _ \<Rightarrow> True)"

definition non_integer_symbol_call :: "call \<Rightarrow> bool" where
  "non_integer_symbol_call c =
     (case c of Add_symbol sy t \<Rightarrow> (case sy of Num n \<Rightarrow> False | _ \<Rightarrow> True) | _ \<Rightarrow> True)"

text \<open>
  The grammars a caller can reach from a fresh \<open>BNF()\<close> by public construction calls that
  satisfy \<open>ok\<close> and by the other methods of the class that change the grammar: the five
  conversion steps, the three helpers of \<open>conversion_term\<close> and \<open>conversion_bin\<close>,
  \<open>reset_start_symbol_for_cnf\<close> and \<open>set_unset_tags\<close>, in any order.
\<close>

inductive reachable :: "(call \<Rightarrow> bool) \<Rightarrow> BNF \<Rightarrow> bool" for ok :: "call \<Rightarrow> bool" where
  r_init: "reachable ok BNF_init"
| r_call: "reachable ok g \<Longrightarrow> ok c \<Longrightarrow> run_call c g = Inr g' \<Longrightarrow> reachable ok g'"
| r_start: "reachable ok g \<Longrightarrow> conversion_start g = Inr g' \<Longrightarrow> reachable ok g'"
| r_term: "reachable ok g \<Longrightarrow> conversion_term g = Inr g' \<Longrightarrow> reachable ok g'"
| r_bin: "reachable ok g \<Longrightarrow> conversion_bin g = Inr g' \<Longrightarrow> reachable ok g'"
| r_del: "reachable ok g \<Longrightarrow> conversion_del g = Inr g' \<Longrightarrow> reachable ok g'"
| r_unit: "reachable ok g \<Longrightarrow> conversion_unit g = Inr g' \<Longrightarrow> reachable ok g'"
| r_replacer: "reachable ok g \<Longrightarrow> conversion_term_replacer g t = Inr (r, g') \<Longrightarrow> reachable ok g'"
| r_splitter: "reachable ok g \<Longrightarrow> conversion_bin_splitter g p rule = Inr (reps, g') \<Longrightarrow>
             reachable ok g'"
| r_determinalizer: "reachable ok g \<Longrightarrow>
             conversion_term_product_determinalizer g p rule = Inr g' \<Longrightarrow> reachable ok g'"
| r_reset: "reachable ok g \<Longrightarrow> reachable ok (reset_start_symbol_for_cnf g)"
| r_tags: "reachable ok g \<Longrightarrow> reachable ok (set_unset_tags g)"

text \<open>Every rule of the PhraseStructure has arity one or two.\<close>

definition ps_arity_ok :: "PhraseStructure \<Rightarrow> bool" where
  "ps_arity_ok ps \<longleftrightarrow>
     (\<forall>k s. map_of (ps_symbols ps) k = Some s \<longrightarrow>
        (\<forall>r \<in> set (rules s). length r = 1 \<or> length r = 2))"

text \<open>
  The table of \<open>generate_cyk_table n\<close> has \<open>n\<close> rows, row \<open>i\<close> with \<open>n - i\<close> cells; the cell
  \<open>(i, j)\<close> stands for the positions \<open>j, \<dots>, j + i\<close> of the sequence. In \<open>empty_over n c t\<close>
  every cell of \<open>t\<close> that stands for a stretch with the position \<open>c\<close> in it is empty.
\<close>

definition table_shape :: "nat \<Rightarrow> pyobj list list list \<Rightarrow> bool" where
  "table_shape n t \<longleftrightarrow> length t = n \<and> (\<forall>i<n. length (t ! i) = n - i)"

definition spans :: "nat \<Rightarrow> nat \<Rightarrow> nat \<Rightarrow> bool" where
  "spans i j c \<longleftrightarrow> j \<le> c \<and> c \<le> j + i"

definition empty_over :: "nat \<Rightarrow> nat \<Rightarrow> pyobj list list list \<Rightarrow> bool" where
  "empty_over n c t \<longleftrightarrow>
     table_shape n t \<and> (\<forall>i<n. \<forall>j<n - i. spans i j c \<longrightarrow> t ! i ! j = [])"

text \<open>
  A property \<open>I\<close> of grammars is kept by the elementary updates the conversion steps are
  made of; \<open>R\<close> describes the rules that may be added, and holds of every rule of length one
  or two and of every rule already present.
\<close>

definition step_closed :: "(BNF \<Rightarrow> bool) \<Rightarrow> (pyobj list \<Rightarrow> bool) \<Rightarrow> bool" where
  "step_closed I R \<longleftrightarrow>
     (\<forall>g k r g'. I g \<and> R r \<and> on_symbol k (\<lambda>s. BNF_Symbol_add_rule s r) g = Inr g' \<longrightarrow> I g') \<and>
     (\<forall>g k s r. I g \<and> map_of (symbols g) k = Some s \<and> r \<in> set (rules s) \<longrightarrow> R r) \<and>
     (\<forall>a b. R [a, b]) \<and> (\<forall>a. R [a]) \<and>
     (\<forall>g k r g'. I g \<and> on_symbol k (\<lambda>s. BNF_Symbol_remove_rule s r) g = Inr g' \<longrightarrow> I g') \<and>
     (\<forall>g k p g'. I g \<and> on_symbol k (\<lambda>s. BNF_Symbol_add_parent s p) g = Inr g' \<longrightarrow> I g') \<and>
     (\<forall>g k p g'. I g \<and> on_symbol k (\<lambda>s. BNF_Symbol_remove_parent s p) g = Inr g' \<longrightarrow> I g') \<and>
     (\<forall>g t r. I g \<and> conversion_term_replacer g t = Inr r \<longrightarrow> I (snd r)) \<and>
     (\<forall>g p rule r. I g \<and> conversion_bin_splitter g p rule = Inr r \<longrightarrow> I (snd r))"

text \<open>The record of a symbol after \<open>p\<close> was added as a parent of every member of \<open>ms\<close>.\<close>

definition add_parent_to :: "pyobj \<Rightarrow> pyobj list \<Rightarrow> pyobj \<Rightarrow> BNF_Symbol \<Rightarrow> BNF_Symbol" where
  "add_parent_to p ms k s = (if k \<in> set ms then s\<lparr>parents := set_add p (parents s)\<rparr> else s)"

section \<open>Dictionaries: lookup and update\<close>

lemma key_iff: "k \<in> set (keys d) \<longleftrightarrow> map_of d k \<noteq> None"
  by (simp add: keys_def map_of_eq_None_iff)

lemma key_lookup: "k \<in> set (keys d) \<Longrightarrow> \<exists>v. map_of d k = Some v"
  by (simp add: key_iff)

lemma lookup_absent: "k \<notin> set (keys d) \<Longrightarrow> lookup d k = Inl KeyError"
  by (simp add: lookup_def key_iff)

lemma lookup_present: "k \<in> set (keys d) \<Longrightarrow> \<exists>v. lookup d k = Inr v \<and> map_of d k = Some v"
  by (auto simp: lookup_def key_iff)

lemma keys_update_present:
  "map_of d k = Some v \<Longrightarrow> keys (AList.update k v' d) = keys d"
proof -
  assume "map_of d k = Some v"
  then have "k \<in> set (keys d)" by (simp add: key_iff)
  then show ?thesis by (simp add: keys_def update_keys)
qed

lemma set_add_idem: "set_add x (set_add x xs) = set_add x xs"
  by (simp add: set_add_def)

lemma on_symbol_Some:
  "map_of (symbols g) k = Some s \<Longrightarrow>
   on_symbol k m g = Inr (g\<lparr>symbols := AList.update k (snd (m s)) (symbols g)\<rparr>)"
  by (simp add: on_symbol_def)

lemma construct_ab: "construct calls_ab = Inr grammar_ab"
  by code_simp

section \<open>add\_rule\<close>

lemma add_parents_fold:
  "set ms \<subseteq> set (keys (symbols g)) \<Longrightarrow>
   \<exists>g'. foldE (\<lambda>x. on_symbol x (\<lambda>s. BNF_Symbol_add_parent s p)) ms g = Inr g' \<and>
        keys (symbols g') = keys (symbols g) \<and>
        start_symbol g' = start_symbol g \<and>
        current_term_replacement g' = current_term_replacement g \<and>
        tags g' = tags g \<and>
        (\<forall>k. map_of (symbols g') k = map_option (add_parent_to p ms k) (map_of (symbols g) k))"
proof (induction ms arbitrary: g)
  case Nil
  show ?case by (simp add: add_parent_to_def option.map_ident)
next
  case (Cons x ms)
  from Cons.prems have "x \<in> set (keys (symbols g))" by simp
  from key_lookup[OF this] obtain s where s: "map_of (symbols g) x = Some s" by auto
  define g1 where "g1 = g\<lparr>symbols := AList.update x (snd (BNF_Symbol_add_parent s p)) (symbols g)\<rparr>"
  have step: "on_symbol x (\<lambda>s. BNF_Symbol_add_parent s p) g = Inr g1"
    unfolding g1_def by (rule on_symbol_Some[OF s])
  have k1: "keys (symbols g1) = keys (symbols g)"
    unfolding g1_def using keys_update_present[OF s] by simp
  have sub: "set ms \<subseteq> set (keys (symbols g1))" using Cons.prems k1 by simp
  from Cons.IH[OF sub] obtain g' where
    f: "foldE (\<lambda>x. on_symbol x (\<lambda>s. BNF_Symbol_add_parent s p)) ms g1 = Inr g'"
    and k: "keys (symbols g') = keys (symbols g1)"
    and st: "start_symbol g' = start_symbol g1"
    and ct: "current_term_replacement g' = current_term_replacement g1"
    and tg: "tags g' = tags g1"
    and m: "\<And>k. map_of (symbols g') k = map_option (add_parent_to p ms k) (map_of (symbols g1) k)"
    by blast
  have m1: "\<And>k. map_of (symbols g1) k =
      (if k = x then Some (s\<lparr>parents := set_add p (parents s)\<rparr>) else map_of (symbols g) k)"
    unfolding g1_def by (simp add: update_conv' BNF_Symbol_add_parent_def)
  have "\<And>k. map_of (symbols g') k = map_option (add_parent_to p (x # ms) k) (map_of (symbols g) k)"
  proof -
    fix k
    show "map_of (symbols g') k = map_option (add_parent_to p (x # ms) k) (map_of (symbols g) k)"
    proof (cases "k = x")
      case True
      then show ?thesis using m[of k] m1[of k] s
        by (simp add: add_parent_to_def set_add_idem)
    next
      case False
      then show ?thesis using m[of k] m1[of k]
        by (cases "map_of (symbols g) k") (simp_all add: add_parent_to_def)
    qed
  qed
  moreover have "foldE (\<lambda>x. on_symbol x (\<lambda>s. BNF_Symbol_add_parent s p)) (x # ms) g = Inr g'"
    using step f by simp
  moreover have "keys (symbols g') = keys (symbols g)" using k k1 by simp
  moreover have "start_symbol g' = start_symbol g" using st by (simp add: g1_def)
  moreover have "current_term_replacement g' = current_term_replacement g" using ct by (simp add: g1_def)
  moreover have "tags g' = tags g" using tg by (simp add: g1_def)
  ultimately show ?case by blast
qed


lemma add_rule_success:
  assumes s: "map_of (symbols g) input_symbol = Some s" and nt: "\<not> is_terminal s"
    and sub: "set ms \<subseteq> set (keys (symbols g))"
  shows "\<exists>g'. add_rule g input_symbol ms = Inr (0, g') \<and>
           keys (symbols g') = keys (symbols g) \<and>
           start_symbol g' = start_symbol g \<and>
           current_term_replacement g' = current_term_replacement g \<and>
           tags g' = tags g \<and>
           (\<forall>k s0. map_of (symbols g) k = Some s0 \<longrightarrow>
              map_of (symbols g') k =
                Some (s0\<lparr>rules := (if k = input_symbol then set_add ms (rules s0) else rules s0),
                         parents := (if k \<in> set ms then set_add input_symbol (parents s0)
                                     else parents s0)\<rparr>))"
proof -
  define g1 where
    "g1 = g\<lparr>symbols := AList.update input_symbol (snd (BNF_Symbol_add_rule s ms)) (symbols g)\<rparr>"
  have step1: "on_symbol input_symbol (\<lambda>s. BNF_Symbol_add_rule s ms) g = Inr g1"
    unfolding g1_def by (rule on_symbol_Some[OF s])
  have k1: "keys (symbols g1) = keys (symbols g)"
    unfolding g1_def using keys_update_present[OF s] by simp
  have m1: "\<And>k. map_of (symbols g1) k =
      (if k = input_symbol then Some (s\<lparr>rules := set_add ms (rules s)\<rparr>)
       else map_of (symbols g) k)"
    unfolding g1_def using nt by (simp add: update_conv' BNF_Symbol_add_rule_def)
  have sub1: "set ms \<subseteq> set (keys (symbols g1))" using sub k1 by simp
  from add_parents_fold[OF sub1, of input_symbol] obtain g' where
    f: "foldE (\<lambda>x. on_symbol x (\<lambda>s. BNF_Symbol_add_parent s input_symbol)) ms g1 = Inr g'"
    and k: "keys (symbols g') = keys (symbols g1)"
    and st: "start_symbol g' = start_symbol g1"
    and ct: "current_term_replacement g' = current_term_replacement g1"
    and tg: "tags g' = tags g1"
    and m: "\<And>k. map_of (symbols g') k =
              map_option (add_parent_to input_symbol ms k) (map_of (symbols g1) k)"
    by blast
  have key: "input_symbol \<in> set (keys (symbols g))" using s by (simp add: key_iff)
  have lk: "lookup (symbols g) input_symbol = Inr s" using s by (simp add: lookup_def)
  have nex: "\<not> (\<exists>x \<in> set ms. x \<notin> set (keys (symbols g)))" using sub by auto
  have res: "add_rule g input_symbol ms = Inr (0, g')"
    unfolding add_rule_def using key lk nt nex step1 f by (simp add: bindE_def)
  have maps: "\<And>k s0. map_of (symbols g) k = Some s0 \<Longrightarrow>
        map_of (symbols g') k =
          Some (s0\<lparr>rules := (if k = input_symbol then set_add ms (rules s0) else rules s0),
                   parents := (if k \<in> set ms then set_add input_symbol (parents s0)
                               else parents s0)\<rparr>)"
  proof -
    fix k s0 assume a: "map_of (symbols g) k = Some s0"
    show "map_of (symbols g') k =
          Some (s0\<lparr>rules := (if k = input_symbol then set_add ms (rules s0) else rules s0),
                   parents := (if k \<in> set ms then set_add input_symbol (parents s0)
                               else parents s0)\<rparr>)"
      using m[of k] m1[of k] a s by (auto simp: add_parent_to_def)
  qed
  have "keys (symbols g') = keys (symbols g)" using k k1 by simp
  moreover have "start_symbol g' = start_symbol g" using st by (simp add: g1_def)
  moreover have "current_term_replacement g' = current_term_replacement g"
    using ct by (simp add: g1_def)
  moreover have "tags g' = tags g" using tg by (simp add: g1_def)
  ultimately show ?thesis using res maps by blast
qed

lemma add_rule_unknown_parent:
  "input_symbol \<notin> set (keys (symbols g)) \<Longrightarrow> add_rule g input_symbol ms = Inr (-3, g)"
  by (simp add: add_rule_def)

lemma add_rule_parent_is_terminal:
  "map_of (symbols g) input_symbol = Some s \<Longrightarrow> is_terminal s \<Longrightarrow>
   add_rule g input_symbol ms = Inr (-1, g)"
  by (simp add: add_rule_def key_iff lookup_def bindE_def)

lemma add_rule_unknown_member:
  "map_of (symbols g) input_symbol = Some s \<Longrightarrow> \<not> is_terminal s \<Longrightarrow>
   \<not> set ms \<subseteq> set (keys (symbols g)) \<Longrightarrow> add_rule g input_symbol ms = Inr (-2, g)"
  by (auto simp: add_rule_def key_iff lookup_def bindE_def)

text \<open>
  Claim C9. \<open>add_rule\<close> never raises. It returns \<open>-3\<close> when the parent symbol is not
  declared, \<open>-1\<close> when the parent is terminal and \<open>-2\<close> when a member is not declared, and
  in these three cases the grammar it leaves is the grammar it was given. When the parent is
  a declared non-terminal and every member is declared it returns \<open>0\<close>; the rule is then in
  the rule set of the parent, the parent is in the parent set of every member, and nothing
  else of the grammar has changed.
\<close>

theorem add_rule_outcomes:
  "(input_symbol \<notin> set (keys (symbols g)) \<longrightarrow> add_rule g input_symbol ms = Inr (-3, g)) \<and>
   (\<forall>s. map_of (symbols g) input_symbol = Some s \<longrightarrow>
      (is_terminal s \<longrightarrow> add_rule g input_symbol ms = Inr (-1, g)) \<and>
      (\<not> is_terminal s \<and> \<not> set ms \<subseteq> set (keys (symbols g)) \<longrightarrow>
         add_rule g input_symbol ms = Inr (-2, g)) \<and>
      (\<not> is_terminal s \<and> set ms \<subseteq> set (keys (symbols g)) \<longrightarrow>
         (\<exists>g'. add_rule g input_symbol ms = Inr (0, g') \<and>
            keys (symbols g') = keys (symbols g) \<and>
            start_symbol g' = start_symbol g \<and>
            current_term_replacement g' = current_term_replacement g \<and>
            tags g' = tags g \<and>
            (\<forall>k s0. map_of (symbols g) k = Some s0 \<longrightarrow>
               map_of (symbols g') k =
                 Some (s0\<lparr>rules := (if k = input_symbol then set_add ms (rules s0)
                                     else rules s0),
                          parents := (if k \<in> set ms then set_add input_symbol (parents s0)
                                      else parents s0)\<rparr>)))))"
proof (intro conjI impI allI)
  assume "input_symbol \<notin> set (keys (symbols g))"
  then show "add_rule g input_symbol ms = Inr (-3, g)" by (rule add_rule_unknown_parent)
next
  fix s assume "map_of (symbols g) input_symbol = Some s" "is_terminal s"
  then show "add_rule g input_symbol ms = Inr (-1, g)" by (rule add_rule_parent_is_terminal)
next
  fix s assume "map_of (symbols g) input_symbol = Some s"
    "\<not> is_terminal s \<and> \<not> set ms \<subseteq> set (keys (symbols g))"
  then show "add_rule g input_symbol ms = Inr (-2, g)"
    using add_rule_unknown_member by blast
next
  fix s assume "map_of (symbols g) input_symbol = Some s"
    "\<not> is_terminal s \<and> set ms \<subseteq> set (keys (symbols g))"
  then show "\<exists>g'. add_rule g input_symbol ms = Inr (0, g') \<and>
            keys (symbols g') = keys (symbols g) \<and>
            start_symbol g' = start_symbol g \<and>
            current_term_replacement g' = current_term_replacement g \<and>
            tags g' = tags g \<and>
            (\<forall>k s0. map_of (symbols g) k = Some s0 \<longrightarrow>
               map_of (symbols g') k =
                 Some (s0\<lparr>rules := (if k = input_symbol then set_add ms (rules s0)
                                     else rules s0),
                          parents := (if k \<in> set ms then set_add input_symbol (parents s0)
                                      else parents s0)\<rparr>))"
    using add_rule_success[of g input_symbol s ms] by blast
qed


theorem add_rule_outcomes_witness:
  "Str ''S'' \<notin> set (keys (symbols grammar_ab)) \<and>
   add_rule grammar_ab (Str ''S'') [Str ''a''] = Inr (-3, grammar_ab) \<and>
   (\<exists>s. map_of (symbols grammar_ab) (Str ''a'') = Some s \<and> is_terminal s) \<and>
   add_rule grammar_ab (Str ''a'') [Str ''b''] = Inr (-1, grammar_ab) \<and>
   (\<exists>s. map_of (symbols grammar_ab) (Str ''A'') = Some s \<and> \<not> is_terminal s) \<and>
   \<not> set [Str ''a'', Str ''z''] \<subseteq> set (keys (symbols grammar_ab)) \<and>
   add_rule grammar_ab (Str ''A'') [Str ''a'', Str ''z''] = Inr (-2, grammar_ab) \<and>
   set [Str ''b'', Str ''B''] \<subseteq> set (keys (symbols grammar_ab)) \<and>
   (\<exists>g'. add_rule grammar_ab (Str ''A'') [Str ''b'', Str ''B''] = Inr (0, g') \<and>
      map_of (symbols g') (Str ''A'') =
        Some \<lparr>symbol = Str ''A'', rules = [[Str ''a''], [Str ''b'', Str ''B'']],
               parents = [Num 0], is_terminal = False\<rparr> \<and>
      map_of (symbols g') (Str ''b'') =
        Some \<lparr>symbol = Str ''b'', rules = [], parents = [Str ''B'', Str ''A''],
               is_terminal = True\<rparr>)"
proof -
  have k1: "Str ''S'' \<notin> set (keys (symbols grammar_ab))"
    by (simp add: grammar_ab_def keys_def)
  have a: "map_of (symbols grammar_ab) (Str ''a'') =
      Some \<lparr>symbol = Str ''a'', rules = [], parents = [Str ''A''], is_terminal = True\<rparr>"
    by (simp add: grammar_ab_def)
  have A: "map_of (symbols grammar_ab) (Str ''A'') =
      Some \<lparr>symbol = Str ''A'', rules = [[Str ''a'']], parents = [Num 0], is_terminal = False\<rparr>"
    by (simp add: grammar_ab_def)
  have b: "map_of (symbols grammar_ab) (Str ''b'') =
      Some \<lparr>symbol = Str ''b'', rules = [], parents = [Str ''B''], is_terminal = True\<rparr>"
    by (simp add: grammar_ab_def)
  have k2: "\<not> set [Str ''a'', Str ''z''] \<subseteq> set (keys (symbols grammar_ab))"
    by (simp add: grammar_ab_def keys_def)
  have k3: "set [Str ''b'', Str ''B''] \<subseteq> set (keys (symbols grammar_ab))"
    by (simp add: grammar_ab_def keys_def)
  have r1: "add_rule grammar_ab (Str ''S'') [Str ''a''] = Inr (-3, grammar_ab)"
    using add_rule_outcomes[of "Str ''S''" grammar_ab "[Str ''a'']"] k1 by blast
  have r2: "add_rule grammar_ab (Str ''a'') [Str ''b''] = Inr (-1, grammar_ab)"
    using add_rule_outcomes[of "Str ''a''" grammar_ab "[Str ''b'']"] a by simp
  have r3: "add_rule grammar_ab (Str ''A'') [Str ''a'', Str ''z''] = Inr (-2, grammar_ab)"
    using add_rule_outcomes[of "Str ''A''" grammar_ab "[Str ''a'', Str ''z'']"] A k2 by simp
  from add_rule_outcomes[of "Str ''A''" grammar_ab "[Str ''b'', Str ''B'']"] A k3
  obtain g' where g': "add_rule grammar_ab (Str ''A'') [Str ''b'', Str ''B''] = Inr (0, g')"
    and m: "\<And>k s0. map_of (symbols grammar_ab) k = Some s0 \<Longrightarrow>
               map_of (symbols g') k =
                 Some (s0\<lparr>rules := (if k = Str ''A'' then set_add [Str ''b'', Str ''B''] (rules s0)
                                     else rules s0),
                          parents := (if k \<in> set [Str ''b'', Str ''B'']
                                      then set_add (Str ''A'') (parents s0)
                                      else parents s0)\<rparr>)"
    by auto
  have mA: "map_of (symbols g') (Str ''A'') =
        Some \<lparr>symbol = Str ''A'', rules = [[Str ''a''], [Str ''b'', Str ''B'']],
               parents = [Num 0], is_terminal = False\<rparr>"
    using m[OF A] by (simp add: set_add_def)
  have mb: "map_of (symbols g') (Str ''b'') =
        Some \<lparr>symbol = Str ''b'', rules = [], parents = [Str ''B'', Str ''A''],
               is_terminal = True\<rparr>"
    using m[OF b] by (simp add: set_add_def)
  show ?thesis using k1 r1 a r2 A k2 r3 k3 g' mA mb by simp
qed

section \<open>CYK: the empty sequence and unknown symbols\<close>

lemma foldE_total:
  assumes "I s" and "\<And>x t. x \<in> set xs \<Longrightarrow> I t \<Longrightarrow> \<exists>t'. f x t = Inr t' \<and> I t'"
  shows "\<exists>s'. foldE f xs s = Inr s' \<and> I s'"
  using assms
proof (induction xs arbitrary: s)
  case Nil
  then show ?case by simp
next
  case (Cons x xs)
  from Cons.prems(2)[of x s] Cons.prems(1) obtain t where t: "f x s = Inr t" "I t" by auto
  have "\<exists>s'. foldE f xs t = Inr s' \<and> I s'"
    by (rule Cons.IH[OF t(2)]) (simp add: Cons.prems(2))
  with t show ?case by simp
qed

lemma empty_over_generate: "empty_over n c (generate_cyk_table n)"
  by (simp add: empty_over_def table_shape_def generate_cyk_table_def)

lemma empty_over_cell_add:
  assumes e: "empty_over n c t" and i: "i < n" and j: "j < n - i" and ns: "\<not> spans i j c"
  shows "\<exists>t'. cell_add t i j x = Inr t' \<and> empty_over n c t'"
proof -
  from e have len: "length t = n" and row: "\<And>i. i < n \<Longrightarrow> length (t ! i) = n - i"
    and emp: "\<And>i j. i < n \<Longrightarrow> j < n - i \<Longrightarrow> spans i j c \<Longrightarrow> t ! i ! j = []"
    by (auto simp: empty_over_def table_shape_def)
  let ?t = "t[i := (t ! i)[j := set_add x (t ! i ! j)]]"
  have c: "cell_add t i j x = Inr ?t"
    using i j len row[OF i] by (simp add: cell_add_def)
  have "length (?t ! i') = n - i'" if "i' < n" for i'
    using that len row[of i'] by (cases "i' = i") simp_all
  then have sh: "table_shape n ?t"
    using len by (simp add: table_shape_def)
  have "?t ! i' ! j' = []" if "i' < n" "j' < n - i'" "spans i' j' c" for i' j'
  proof (cases "i' = i")
    case True
    with that ns have "j' \<noteq> j" by auto
    with True i len that emp[of i' j'] show ?thesis by simp
  next
    case False
    with that emp[of i' j'] len show ?thesis by simp
  qed
  with sh c show ?thesis by (simp add: empty_over_def)
qed

lemma empty_over_cell_adds:
  assumes e: "empty_over n c t" and i: "i < n" and j: "j < n - i" and ns: "\<not> spans i j c"
  shows "\<exists>t'. foldE (\<lambda>parent t. if P parent then cell_add t i j parent else Inr t) xs t = Inr t'
           \<and> empty_over n c t'"
  by (rule foldE_total[where I = "empty_over n c", OF e])
     (auto intro: empty_over_cell_add[OF _ i j ns])


lemma ps_symbol_absent:
  "x \<notin> set (keys (ps_symbols ps)) \<Longrightarrow> parents (ps_symbol ps x) = []"
  by (simp add: ps_symbol_def key_iff BNF_Symbol_init_def)

lemma empty_over_seed:
  assumes c: "c < length symbol_list" and a: "parents (ps_symbol ps (symbol_list ! c)) = []"
    and n: "n = length symbol_list"
  shows "\<exists>t'. foldE (\<lambda>column t.
                foldE (\<lambda>parent t. cell_add t 0 column parent)
                  (parents (ps_symbol ps (symbol_list ! column))) t)
              [0..<n] (generate_cyk_table n) = Inr t' \<and> empty_over n c t'"
proof (rule foldE_total[where I = "empty_over n c", OF empty_over_generate])
  fix column t
  assume col: "column \<in> set [0..<n]" and e: "empty_over n c t"
  show "\<exists>t'. foldE (\<lambda>parent t. cell_add t 0 column parent)
                (parents (ps_symbol ps (symbol_list ! column))) t = Inr t' \<and> empty_over n c t'"
  proof (cases "column = c")
    case True
    with a e show ?thesis by simp
  next
    case False
    then have ns: "\<not> spans 0 column c" by (auto simp: spans_def)
    have 0: "0 < n" and j: "column < n - 0" using col by auto
    from empty_over_cell_adds[OF e 0 j ns, where P = "\<lambda>_. True"]
    show ?thesis by simp
  qed
qed

lemma get_cell_shape:
  "table_shape n t \<Longrightarrow> i < n \<Longrightarrow> j < n - i \<Longrightarrow> get_cell t i j = Inr (t ! i ! j)"
  by (simp add: get_cell_def table_shape_def)

lemma pairs_inner_total:
  assumes "get_cell t i j = Inr cell2"
  shows "\<exists>pairs'. foldE (\<lambda>item1 pairs.
                bindE (get_cell t i j) (\<lambda>cell2.
                  Inr (fold (\<lambda>item2 pairs. set_add (item1, item2) pairs) cell2 pairs)))
               cell1 pairs = Inr pairs' \<and> (cell2 = [] \<and> pairs = [] \<longrightarrow> pairs' = [])"
proof (induction cell1 arbitrary: pairs)
  case Nil
  then show ?case by simp
next
  case (Cons a cell1)
  show ?case using assms Cons[of "fold (\<lambda>item2 pairs. set_add (a, item2) pairs) cell2 pairs"]
    by (cases "cell2 = []") (auto simp: bindE_def)
qed

lemma get_cyk_pairs_total:
  assumes sh: "table_shape n t" and row: "row < n" and col: "column < n - row"
  shows "\<exists>pairs. get_cyk_pairs t row column = Inr pairs"
proof -
  let ?f = "\<lambda>left_i pairs.
        let left_j = column;
            right_j = column + left_i + 1;
            right_i = row - left_i - 1
        in bindE (get_cell t left_i left_j) (\<lambda>cell1.
             foldE (\<lambda>item1 pairs.
                bindE (get_cell t right_i right_j) (\<lambda>cell2.
                  Inr (fold (\<lambda>item2 pairs. set_add (item1, item2) pairs) cell2 pairs)))
               cell1 pairs)"
  have "\<exists>s'. foldE ?f [0..<row] [] = Inr s' \<and> True"
  proof (rule foldE_total[where I = "\<lambda>_. True"])
    fix left_i pairs
    assume "left_i \<in> set [0..<row]"
    then have l: "left_i < row" by simp
    have 1: "get_cell t left_i column = Inr (t ! left_i ! column)"
      using l row col by (intro get_cell_shape[OF sh]) auto
    have 2: "get_cell t (row - left_i - 1) (column + left_i + 1)
               = Inr (t ! (row - left_i - 1) ! (column + left_i + 1))"
      using l row col by (intro get_cell_shape[OF sh]) auto
    from pairs_inner_total[OF 2, of "t ! left_i ! column" pairs]
    show "\<exists>t'. ?f left_i pairs = Inr t' \<and> True"
      using 1 by (auto simp: Let_def bindE_def)
  qed simp
  then show ?thesis by (simp add: get_cyk_pairs_def)
qed

lemma get_cyk_pairs_empty:
  assumes e: "empty_over n c t" and row: "row < n" and col: "column < n - row"
    and sp: "spans row column c"
  shows "get_cyk_pairs t row column = Inr []"
proof -
  from e have sh: "table_shape n t"
    and emp: "\<And>i j. i < n \<Longrightarrow> j < n - i \<Longrightarrow> spans i j c \<Longrightarrow> t ! i ! j = []"
    by (auto simp: empty_over_def)
  let ?f = "\<lambda>left_i pairs.
        let left_j = column;
            right_j = column + left_i + 1;
            right_i = row - left_i - 1
        in bindE (get_cell t left_i left_j) (\<lambda>cell1.
             foldE (\<lambda>item1 pairs.
                bindE (get_cell t right_i right_j) (\<lambda>cell2.
                  Inr (fold (\<lambda>item2 pairs. set_add (item1, item2) pairs) cell2 pairs)))
               cell1 pairs)"
  have "\<exists>s'. foldE ?f [0..<row] [] = Inr s' \<and> s' = []"
  proof (rule foldE_total[where I = "\<lambda>pairs. pairs = []"])
    fix left_i pairs
    assume "left_i \<in> set [0..<row]" and p: "pairs = ([]::(pyobj \<times> pyobj) list)"
    then have l: "left_i < row" by simp
    have 1: "get_cell t left_i column = Inr (t ! left_i ! column)"
      using l row col by (intro get_cell_shape[OF sh]) auto
    have 2: "get_cell t (row - left_i - 1) (column + left_i + 1)
               = Inr (t ! (row - left_i - 1) ! (column + left_i + 1))"
      using l row col by (intro get_cell_shape[OF sh]) auto
    show "\<exists>t'. ?f left_i pairs = Inr t' \<and> t' = []"
    proof (cases "c \<le> column + left_i")
      case True
      then have "spans left_i column c" using sp by (simp add: spans_def)
      then have "t ! left_i ! column = []" using l row col by (intro emp) auto
      with 1 p show ?thesis by (simp add: Let_def bindE_def)
    next
      case False
      then have "spans (row - left_i - 1) (column + left_i + 1) c"
        using sp l by (auto simp: spans_def)
      then have z: "t ! (row - left_i - 1) ! (column + left_i + 1) = []"
        using l row col by (intro emp) auto
      from pairs_inner_total[OF 2, of "t ! left_i ! column" pairs] z p
      show ?thesis using 1 by (auto simp: Let_def bindE_def)
    qed
  qed simp
  then show ?thesis by (simp add: get_cyk_pairs_def)
qed

lemma empty_over_fill_cyk_row:
  assumes e: "empty_over n c t" and row: "row < n"
  shows "\<exists>t'. fill_cyk_row ps row t = Inr t' \<and> empty_over n c t'"
proof -
  from e have sh: "table_shape n t" by (simp add: empty_over_def)
  then have len: "length t = n" and w: "length (t ! row) = n - row"
    using row by (auto simp: table_shape_def)
  let ?g = "\<lambda>column t.
           bindE (get_cyk_pairs t row column) (\<lambda>pairs.
             foldE (\<lambda>(item1, item2) t.
                foldE (\<lambda>parent t.
                   if [item1, item2] \<in> set (rules (ps_symbol ps parent))
                   then cell_add t row column parent
                   else Inr t)
                  (get_common_parents ps item1 item2) t)
               pairs t)"
  have "\<exists>t'. foldE ?g [0..<n - row] t = Inr t' \<and> empty_over n c t'"
  proof (rule foldE_total[where I = "empty_over n c", OF e])
    fix column u
    assume "column \<in> set [0..<n - row]" and eu: "empty_over n c u"
    then have col: "column < n - row" by simp
    from eu have shu: "table_shape n u" by (simp add: empty_over_def)
    show "\<exists>t'. ?g column u = Inr t' \<and> empty_over n c t'"
    proof (cases "spans row column c")
      case True
      from get_cyk_pairs_empty[OF eu row col True] eu show ?thesis by (simp add: bindE_def)
    next
      case False
      from get_cyk_pairs_total[OF shu row col] obtain pairs where
        p: "get_cyk_pairs u row column = Inr pairs" by blast
      have "\<exists>t'. foldE (\<lambda>(item1, item2) t.
                foldE (\<lambda>parent t.
                   if [item1, item2] \<in> set (rules (ps_symbol ps parent))
                   then cell_add t row column parent
                   else Inr t)
                  (get_common_parents ps item1 item2) t) pairs u = Inr t' \<and> empty_over n c t'"
      proof (rule foldE_total[where I = "empty_over n c", OF eu])
        fix x :: "pyobj \<times> pyobj" and v
        assume ev: "empty_over n c v"
        obtain item1 :: pyobj and item2 :: pyobj where x: "x = (item1, item2)" by (cases x)
        from empty_over_cell_adds[OF ev row col False,
            where P = "\<lambda>parent. [item1, item2] \<in> set (rules (ps_symbol ps parent))"
              and xs = "get_common_parents ps item1 item2"]
        show "\<exists>t'. (case x of (item1, item2) \<Rightarrow> \<lambda>t.
                foldE (\<lambda>parent t.
                   if [item1, item2] \<in> set (rules (ps_symbol ps parent))
                   then cell_add t row column parent
                   else Inr t)
                  (get_common_parents ps item1 item2) t) v = Inr t' \<and> empty_over n c t'"
          unfolding x by simp
      qed
      with p show ?thesis by (simp add: bindE_def)
    qed
  qed
  then show ?thesis using row len w by (simp add: fill_cyk_row_def)
qed

text \<open>
  Claim C7, as the code behaves. On the empty sequence \<open>generate_cyk_table\<close> builds an
  empty table, both loops are skipped, and \<open>self.cyk_table[-1]\<close> raises \<open>IndexError\<close>: for
  every grammar \<open>fits_grammar\<close> raises on the empty sequence and returns no boolean.
\<close>

theorem fits_grammar_empty_sequence: "fits_grammar ps [] = Inl IndexError"
  by (simp add: fits_grammar_def generate_cyk_table_def bindE_def)

text \<open>
  Claim C8. When the sequence contains a symbol that is not in the symbol table of the
  grammar, that symbol has an empty parent set, and \<open>fits_grammar\<close> raises nothing and
  returns \<open>False\<close>: no index of the table is out of range, every cell that stands for a
  stretch with the unknown symbol in it stays empty, and the last of them is the cell
  \<open>cyk_table[-1][0]\<close> that decides the answer.
\<close>

theorem fits_grammar_unknown_symbol:
  assumes "x \<in> set symbol_list" and "x \<notin> set (keys (ps_symbols ps))"
  shows "parents (ps_symbol ps x) = [] \<and> fits_grammar ps symbol_list = Inr False"
proof -
  let ?n = "length symbol_list"
  from assms(1) obtain c where c: "c < ?n" and x: "symbol_list ! c = x"
    by (auto simp: in_set_conv_nth)
  have a: "parents (ps_symbol ps x) = []" by (rule ps_symbol_absent[OF assms(2)])
  from empty_over_seed[OF c, of ps ?n] a x obtain t1 where
    t1: "foldE (\<lambda>column t.
                foldE (\<lambda>parent t. cell_add t 0 column parent)
                  (parents (ps_symbol ps (symbol_list ! column))) t)
              [0..<?n] (generate_cyk_table ?n) = Inr t1"
    and e1: "empty_over ?n c t1" by auto
  have "\<exists>t2. foldE (\<lambda>row t. fill_cyk_row ps row t) [1..<?n] t1 = Inr t2 \<and> empty_over ?n c t2"
    by (rule foldE_total[where I = "empty_over ?n c", OF e1])
       (auto intro: empty_over_fill_cyk_row)
  then obtain t2 where
    t2: "foldE (\<lambda>row t. fill_cyk_row ps row t) [1..<?n] t1 = Inr t2"
    and e2: "empty_over ?n c t2" by blast
  from e2 have sh: "table_shape ?n t2"
    and emp: "\<And>i j. i < ?n \<Longrightarrow> j < ?n - i \<Longrightarrow> spans i j c \<Longrightarrow> t2 ! i ! j = []"
    by (auto simp: empty_over_def)
  from sh have len: "length t2 = ?n" by (simp add: table_shape_def)
  have ne: "t2 \<noteq> []" using len c by auto
  have g: "get_cell t2 (?n - 1) 0 = Inr (t2 ! (?n - 1) ! 0)"
    using c by (intro get_cell_shape[OF sh]) auto
  have "spans (?n - 1) 0 c" using c by (auto simp: spans_def)
  then have h: "t2 ! (?n - 1) ! 0 = []" using c by (intro emp) auto
  have "fits_grammar ps symbol_list = Inr False"
    unfolding fits_grammar_def Let_def t1 using t2 ne g h len by (simp add: bindE_def)
  with a show ?thesis by simp
qed

theorem fits_grammar_unknown_symbol_witness:
  "Str ''z'' \<in> set [Str ''a'', Str ''z''] \<and> Str ''z'' \<notin> set (keys (ps_symbols cnf_ab)) \<and>
   parents (ps_symbol cnf_ab (Str ''z'')) = [] \<and>
   fits_grammar cnf_ab [Str ''a'', Str ''z''] = Inr False"
proof -
  have 1: "Str ''z'' \<in> set [Str ''a'', Str ''z'']" by simp
  have 2: "Str ''z'' \<notin> set (keys (ps_symbols cnf_ab))" by (simp add: cnf_ab_def keys_def)
  show ?thesis using 1 2 fits_grammar_unknown_symbol[OF 1 2] by simp
qed

section \<open>The conversion on the example grammars\<close>

lemma construct_ab_tagged: "construct calls_ab_tagged = Inr grammar_ab_tagged"
  by code_simp

lemma construct_mixed: "construct calls_mixed = Inr grammar_mixed"
  by code_simp

lemma construct_unit: "construct calls_unit = Inr grammar_unit"
  by code_simp

lemma construct_long: "construct calls_long = Inr grammar_long"
  by code_simp

lemma construct_terminals: "construct calls_terminals = Inr grammar_terminals"
  by code_simp

text \<open>
  Claim C3, as the code behaves. On \<open>S -> A "a"\<close>, \<open>A -> "a"\<close> the step \<open>conversion_term\<close>
  creates the synthetic non-terminal \<open>-1\<close> with the one rule \<open>("a",)\<close>, but it neither puts
  \<open>-1\<close> into the rule nor removes the rule: \<open>remove_rule(rule)\<close> looks for the 1-tuple
  \<open>(rule,)\<close>, which is no rule of \<open>S\<close>. After the step the rule \<open>("A", "a")\<close> of \<open>S\<close> still
  mixes a non-terminal and a terminal.
\<close>

theorem conversion_term_keeps_mixed_rule:
  "conversion_term grammar_mixed = Inr grammar_mixed_term \<and>
   map_option rules (map_of (symbols grammar_mixed_term) (Num 0)) = Some [[Str ''A'', Str ''a'']] \<and>
   check_if_conversion_term_necessary grammar_mixed_term [Str ''A'', Str ''a''] = Inr True"
proof (intro conjI)
  show "conversion_term grammar_mixed = Inr grammar_mixed_term"
    by code_simp
  show "map_option rules (map_of (symbols grammar_mixed_term) (Num 0))
          = Some [[Str ''A'', Str ''a'']]"
    by (simp add: grammar_mixed_term_def)
  show "check_if_conversion_term_necessary grammar_mixed_term [Str ''A'', Str ''a''] = Inr True"
    by code_simp
qed

text \<open>
  Claim C4, as the code behaves. On \<open>S -> X\<close>, \<open>X -> "a"\<close> the step \<open>conversion_unit\<close>
  puts the rule \<open>("a",)\<close> under \<open>S\<close> without adding \<open>S\<close> to the parent set of \<open>"a"\<close>: the
  rule \<open>S -> ("a")\<close> is present and \<open>S\<close> is no parent of \<open>"a"\<close>. On \<open>S -> A B C\<close>, \<open>S -> B\<close>
  the step \<open>conversion_bin\<close> removes \<open>S\<close> from the parent set of \<open>B\<close> although the rule
  \<open>S -> (B)\<close> survives, because \<open>is_only_subrule_with_daughter\<close> skips rules of length one.
\<close>

theorem conversion_steps_break_parent_symmetry:
  "conversion_unit grammar_unit = Inr grammar_unit_inlined \<and>
   map_option rules (map_of (symbols grammar_unit_inlined) (Num 0)) = Some [[Str ''a'']] \<and>
   map_option parents (map_of (symbols grammar_unit_inlined) (Str ''a'')) = Some [Str ''X''] \<and>
   conversion_bin grammar_long = Inr grammar_long_bin \<and>
   map_option rules (map_of (symbols grammar_long_bin) (Num 0))
     = Some [[Str ''B''], [Str ''A'', Num (- 1)]] \<and>
   map_option parents (map_of (symbols grammar_long_bin) (Str ''B'')) = Some [Num (- 1)]"
proof (intro conjI)
  show "conversion_unit grammar_unit = Inr grammar_unit_inlined"
    by code_simp
  show "map_option rules (map_of (symbols grammar_unit_inlined) (Num 0)) = Some [[Str ''a'']]"
    by (simp add: grammar_unit_inlined_def)
  show "map_option parents (map_of (symbols grammar_unit_inlined) (Str ''a'')) = Some [Str ''X'']"
    by (simp add: grammar_unit_inlined_def)
  show "conversion_bin grammar_long = Inr grammar_long_bin"
    by code_simp
  show "map_option rules (map_of (symbols grammar_long_bin) (Num 0))
     = Some [[Str ''B''], [Str ''A'', Num (- 1)]]"
    by (simp add: grammar_long_bin_def)
  show "map_option parents (map_of (symbols grammar_long_bin) (Str ''B'')) = Some [Num (- 1)]"
    by (simp add: grammar_long_bin_def)
qed

section \<open>The conversion loop\<close>

lemma terminals_not_cnf: "check_if_cnf grammar_terminals = Inr False"
  by code_simp

lemma terminals_pass: "conversion_pass grammar_terminals = Inr grammar_terminals"
  by code_simp

lemma convert_loop_terminals: "convert_loop grammar_terminals = None"
proof (cases "convert_loop grammar_terminals")
  case None
  then show ?thesis .
next
  case (Some y)
  have ne: "g \<noteq> grammar_terminals" if "convert_loop g = Some r" for g r
  proof (rule convert_loop.raw_induct[where P = "\<lambda>g r. g \<noteq> grammar_terminals", OF _ that],
      goal_cases)
    case (1 loop g r)
    show ?case
    proof
      assume g: "g = grammar_terminals"
      from 1(2) have "loop grammar_terminals = Some r"
        unfolding g by (simp add: terminals_not_cnf terminals_pass)
      from 1(1)[OF this] show False by simp
    qed
  qed
  from ne[OF Some] show ?thesis by simp
qed

text \<open>
  Claim C2, as the code behaves. On \<open>S -> "a" "b"\<close> no step of the pass changes the
  grammar (\<open>conversion_term\<close> only looks at rules that mix terminals and non-terminals),
  \<open>check_if_cnf\<close> stays false, and the loop of \<open>convert_to_cnf\<close> never exits.
\<close>

theorem convert_to_cnf_diverges:
  "check_if_cnf grammar_terminals = Inr False \<and>
   conversion_pass grammar_terminals = Inr grammar_terminals \<and>
   convert_to_cnf grammar_terminals = None"
  by (simp add: terminals_not_cnf terminals_pass convert_loop_terminals convert_to_cnf_def)

lemma convert_loop_ab: "convert_loop grammar_ab_tagged = Some (Inr grammar_ab_tagged)"
  by (subst convert_loop.simps) code_simp

lemma create_phrase_structure_ab: "create_phrase_structure grammar_ab_tagged = Inr cnf_ab"
  by code_simp

text \<open>
  Claim C1, as the code behaves. For \<open>S -> A B\<close>, \<open>A -> "a"\<close>, \<open>B -> "b"\<close> the conversion
  returns the PhraseStructure \<open>cnf_ab\<close>; \<open>fits_grammar\<close> accepts \<open>"a" "b"\<close> and rejects
  \<open>"b" "a"\<close>, but on the empty sequence, which the grammar does not derive, it raises
  \<open>IndexError\<close> instead of returning \<open>False\<close>.
\<close>

theorem recognize_after_normalize_on_ab:
  "convert_to_cnf grammar_ab_tagged = Some (Inr cnf_ab) \<and>
   fits_grammar cnf_ab [Str ''a'', Str ''b''] = Inr True \<and>
   fits_grammar cnf_ab [Str ''b'', Str ''a''] = Inr False \<and>
   fits_grammar cnf_ab [] = Inl IndexError"
proof (intro conjI)
  show "convert_to_cnf grammar_ab_tagged = Some (Inr cnf_ab)"
    by (simp add: convert_to_cnf_def convert_loop_ab create_phrase_structure_ab)
  show "fits_grammar cnf_ab [Str ''a'', Str ''b''] = Inr True"
    by code_simp
  show "fits_grammar cnf_ab [Str ''b'', Str ''a''] = Inr False"
    by code_simp
  show "fits_grammar cnf_ab [] = Inl IndexError"
    by code_simp
qed

section \<open>Properties kept by the conversion steps\<close>

lemma foldE_preserves:
  assumes "foldE f xs s = Inr s'" and "I s"
    and "\<And>x t t'. x \<in> set xs \<Longrightarrow> I t \<Longrightarrow> f x t = Inr t' \<Longrightarrow> I t'"
  shows "I s'"
  using assms
proof (induction xs arbitrary: s)
  case Nil
  then show ?case by simp
next
  case (Cons x xs)
  from Cons.prems(1) obtain t where t: "f x s = Inr t" and r: "foldE f xs t = Inr s'"
    by (auto split: sum.splits)
  have "I t" using Cons.prems(3)[OF _ Cons.prems(2) t] by simp
  then show ?case
  proof (rule Cons.IH[OF r])
    fix y u u' assume "y \<in> set xs" "I u" "f y u = Inr u'"
    then show "I u'" using Cons.prems(3)[of y u u'] by simp
  qed
qed

lemma bindE_InrE:
  assumes "bindE m f = Inr y"
  obtains x where "m = Inr x" and "f x = Inr y"
  using assms by (cases m) (simp_all add: bindE_def)

lemma sc_add_rule:
  "step_closed I R \<Longrightarrow> I g \<Longrightarrow> R r \<Longrightarrow>
   on_symbol k (\<lambda>s. BNF_Symbol_add_rule s r) g = Inr g' \<Longrightarrow> I g'"
  unfolding step_closed_def by meson

lemma sc_rule:
  "step_closed I R \<Longrightarrow> I g \<Longrightarrow> map_of (symbols g) k = Some s \<Longrightarrow> r \<in> set (rules s) \<Longrightarrow> R r"
  unfolding step_closed_def by meson

lemma sc_binary: "step_closed I R \<Longrightarrow> R [a, b]"
  unfolding step_closed_def by meson

lemma sc_unary: "step_closed I R \<Longrightarrow> R [a]"
  unfolding step_closed_def by meson

lemma sc_remove_rule:
  "step_closed I R \<Longrightarrow> I g \<Longrightarrow>
   on_symbol k (\<lambda>s. BNF_Symbol_remove_rule s r) g = Inr g' \<Longrightarrow> I g'"
  unfolding step_closed_def by meson

lemma sc_add_parent:
  "step_closed I R \<Longrightarrow> I g \<Longrightarrow>
   on_symbol k (\<lambda>s. BNF_Symbol_add_parent s p) g = Inr g' \<Longrightarrow> I g'"
  unfolding step_closed_def by meson

lemma sc_remove_parent:
  "step_closed I R \<Longrightarrow> I g \<Longrightarrow>
   on_symbol k (\<lambda>s. BNF_Symbol_remove_parent s p) g = Inr g' \<Longrightarrow> I g'"
  unfolding step_closed_def by meson

lemma sc_replacer:
  "step_closed I R \<Longrightarrow> I g \<Longrightarrow> conversion_term_replacer g t = Inr (a, g') \<Longrightarrow> I g'"
  unfolding step_closed_def by (metis snd_conv)

lemma sc_splitter:
  "step_closed I R \<Longrightarrow> I g \<Longrightarrow> conversion_bin_splitter g p rule = Inr (a, g') \<Longrightarrow> I g'"
  unfolding step_closed_def by (metis snd_conv)

lemma determinalizer_preserves:
  assumes sc: "step_closed I R" and i: "I g"
    and r: "conversion_term_product_determinalizer g parent_symbol rule = Inr g'"
  shows "I g'"
proof -
  let ?f = "\<lambda>item (replaced, g).
                bindE (lookup (symbols g) item) (\<lambda>s.
                  if is_terminal s
                  then bindE (conversion_term_replacer g item) (\<lambda>r. Inr (True, snd r))
                  else Inr (replaced, g))"
  from r obtain b h where f: "foldE ?f rule (False, g) = Inr (b, h)"
    and fin: "(if b then on_symbol parent_symbol (\<lambda>s. BNF_Symbol_remove_rule s [Tup rule]) h
              else Inr h) = Inr g'"
    unfolding conversion_term_product_determinalizer_def
    by (auto elim!: bindE_InrE)
  have "I (snd (b, h))"
  proof (rule foldE_preserves[where I = "\<lambda>st. I (snd st)", OF f])
    show "I (snd (False, g))" using i by simp
  next
    fix x t t' assume "I (snd t)" and "?f x t = Inr t'"
    then show "I (snd t')"
      apply (cases t)
      apply (auto elim!: bindE_InrE split: if_splits)
      apply (rule sc_replacer[OF sc]; assumption)
      done
  qed
  with fin show ?thesis
    by (auto split: if_splits intro: sc_remove_rule[OF sc])
qed

lemma conversion_term_preserves:
  assumes sc: "step_closed I R" and i: "I g" and r: "conversion_term g = Inr g'"
  shows "I g'"
proof (rule foldE_preserves[where I = I, OF r[unfolded conversion_term_def] i])
  fix sy h h' assume ih: "I h"
    and e: "bindE (lookup (symbols h) sy) (\<lambda>s.
          foldE (\<lambda>rule g.
             bindE (check_if_conversion_term_necessary g rule) (\<lambda>necessary.
               if necessary then conversion_term_product_determinalizer g sy rule
               else Inr g))
            (rules s) h) = Inr h'"
  from e obtain s :: BNF_Symbol where f: "foldE (\<lambda>rule g.
             bindE (check_if_conversion_term_necessary g rule) (\<lambda>necessary.
               if necessary then conversion_term_product_determinalizer g sy rule
               else Inr g))
            (rules s) h = Inr h'"
    by (rule bindE_InrE)
  show "I h'"
  proof (rule foldE_preserves[where I = I, OF f ih])
    fix rule t t' assume "I t"
      and "bindE (check_if_conversion_term_necessary t rule) (\<lambda>necessary.
               if necessary then conversion_term_product_determinalizer t sy rule
               else Inr t) = Inr t'"
    then show "I t'"
      by (auto elim!: bindE_InrE split: if_splits intro: determinalizer_preserves[OF sc])
  qed
qed


lemma conversion_bin_rule_preserves:
  assumes sc: "step_closed I R" and i: "I g"
    and r: "bindE (conversion_bin_splitter g sy rule) (\<lambda>(replacements, g1).
               bindE (foldE (\<lambda>(parent, symbol1, symbol2) g.
                         bindE (on_symbol parent
                                  (\<lambda>s. BNF_Symbol_add_rule s [symbol1, symbol2]) g) (\<lambda>g.
                         bindE (on_symbol symbol1
                                  (\<lambda>s. BNF_Symbol_add_parent s parent) g) (\<lambda>g.
                         on_symbol symbol2 (\<lambda>s. BNF_Symbol_add_parent s parent) g)))
                       replacements g1) (\<lambda>g2.
               bindE (on_symbol sy (\<lambda>s. BNF_Symbol_remove_rule s rule) g2) (\<lambda>g3.
               foldE (\<lambda>item g.
                  bindE (is_only_subrule_with_daughter g sy item) (\<lambda>only.
                    if only then on_symbol item (\<lambda>s. BNF_Symbol_remove_parent s sy) g
                    else Inr g))
                 rule g3))) = Inr g'"
  shows "I g'"
proof -
  from r obtain replacements g1 g2 g3 where
    sp: "conversion_bin_splitter g sy rule = Inr (replacements, g1)"
    and f1: "foldE (\<lambda>(parent, symbol1, symbol2) g.
                         bindE (on_symbol parent
                                  (\<lambda>s. BNF_Symbol_add_rule s [symbol1, symbol2]) g) (\<lambda>g.
                         bindE (on_symbol symbol1
                                  (\<lambda>s. BNF_Symbol_add_parent s parent) g) (\<lambda>g.
                         on_symbol symbol2 (\<lambda>s. BNF_Symbol_add_parent s parent) g)))
                       replacements g1 = Inr g2"
    and rm: "on_symbol sy (\<lambda>s. BNF_Symbol_remove_rule s rule) g2 = Inr g3"
    and f2: "foldE (\<lambda>item g.
                  bindE (is_only_subrule_with_daughter g sy item) (\<lambda>only.
                    if only then on_symbol item (\<lambda>s. BNF_Symbol_remove_parent s sy) g
                    else Inr g))
                 rule g3 = Inr g'"
    by (auto elim!: bindE_InrE)
  have i1: "I g1" by (rule sc_splitter[OF sc i sp])
  have i2: "I g2"
  proof (rule foldE_preserves[where I = I, OF f1 i1])
    fix x :: "pyobj \<times> pyobj \<times> pyobj" and t t' :: BNF
    assume it: "I t"
      and e: "(case x of (parent, symbol1, symbol2) \<Rightarrow> \<lambda>g.
                         bindE (on_symbol parent
                                  (\<lambda>s. BNF_Symbol_add_rule s [symbol1, symbol2]) g) (\<lambda>g.
                         bindE (on_symbol symbol1
                                  (\<lambda>s. BNF_Symbol_add_parent s parent) g) (\<lambda>g.
                         on_symbol symbol2 (\<lambda>s. BNF_Symbol_add_parent s parent) g))) t = Inr t'"
    obtain p a b where x: "x = (p, a, b)" by (cases x)
    from e obtain u v where
      1: "on_symbol p (\<lambda>s. BNF_Symbol_add_rule s [a, b]) t = Inr u"
      and 2: "on_symbol a (\<lambda>s. BNF_Symbol_add_parent s p) u = Inr v"
      and 3: "on_symbol b (\<lambda>s. BNF_Symbol_add_parent s p) v = Inr t'"
      unfolding x by (auto elim!: bindE_InrE)
    have "I u" by (rule sc_add_rule[OF sc it sc_binary[OF sc] 1])
    then have "I v" by (rule sc_add_parent[OF sc _ 2])
    then show "I t'" by (rule sc_add_parent[OF sc _ 3])
  qed
  have i3: "I g3" by (rule sc_remove_rule[OF sc i2 rm])
  show ?thesis
  proof (rule foldE_preserves[where I = I, OF f2 i3])
    fix item :: pyobj and t t' :: BNF
    assume it: "I t"
      and e: "bindE (is_only_subrule_with_daughter t sy item) (\<lambda>only.
                    if only then on_symbol item (\<lambda>s. BNF_Symbol_remove_parent s sy) t
                    else Inr t) = Inr t'"
    from e obtain only where
      "(if only then on_symbol item (\<lambda>s. BNF_Symbol_remove_parent s sy) t else Inr t) = Inr t'"
      by (rule bindE_InrE)
    then show "I t'"
      using it sc_remove_parent[OF sc it] by (cases only) auto
  qed
qed

lemma conversion_bin_preserves:
  assumes sc: "step_closed I R" and i: "I g" and r: "conversion_bin g = Inr g'"
  shows "I g'"
proof (rule foldE_preserves[where I = I, OF r[unfolded conversion_bin_def] i], goal_cases)
  case (1 sy h h')
  from 1(3) obtain s :: BNF_Symbol where f: "foldE (\<lambda>rule g.
             if is_bin_applicable rule then
               bindE (conversion_bin_splitter g sy rule) (\<lambda>(replacements, g1).
               bindE (foldE (\<lambda>(parent, symbol1, symbol2) g.
                         bindE (on_symbol parent
                                  (\<lambda>s. BNF_Symbol_add_rule s [symbol1, symbol2]) g) (\<lambda>g.
                         bindE (on_symbol symbol1
                                  (\<lambda>s. BNF_Symbol_add_parent s parent) g) (\<lambda>g.
                         on_symbol symbol2 (\<lambda>s. BNF_Symbol_add_parent s parent) g)))
                       replacements g1) (\<lambda>g2.
               bindE (on_symbol sy (\<lambda>s. BNF_Symbol_remove_rule s rule) g2) (\<lambda>g3.
               foldE (\<lambda>item g.
                  bindE (is_only_subrule_with_daughter g sy item) (\<lambda>only.
                    if only then on_symbol item (\<lambda>s. BNF_Symbol_remove_parent s sy) g
                    else Inr g))
                 rule g3)))
             else Inr g)
            (rules s) h = Inr h'"
    by (rule bindE_InrE)
  show ?case
  proof (rule foldE_preserves[where I = I, OF f 1(2)], goal_cases)
    case (1 rule t t')
    show ?case
    proof (cases "is_bin_applicable rule")
      case True
      with 1(3) show ?thesis
        using conversion_bin_rule_preserves[OF sc 1(2), of sy rule t'] by simp
    next
      case False
      with 1(2,3) show ?thesis by simp
    qed
  qed
qed


lemma lookup_Inr: "lookup d k = Inr v \<Longrightarrow> map_of d k = Some v"
  by (simp add: lookup_def split: option.splits)

lemma conversion_unit_inline_preserves:
  assumes sc: "step_closed I R" and i: "I g"
    and l: "lookup (symbols g) k = Inr t"
    and f: "foldE (\<lambda>subrule g. on_symbol sy (\<lambda>s. BNF_Symbol_add_rule s subrule) g)
              (rules t) g = Inr g'"
  shows "I g'"
proof (rule foldE_preserves[where I = I, OF f i], goal_cases)
  case (1 subrule h h')
  have "R subrule" by (rule sc_rule[OF sc i lookup_Inr[OF l] 1(1)])
  then show ?case by (rule sc_add_rule[OF sc 1(2) _ 1(3)])
qed

lemma conversion_unit_preserves:
  assumes sc: "step_closed I R" and i: "I g" and r: "conversion_unit g = Inr g'"
  shows "I g'"
proof -
  let ?inner = "\<lambda>sy rule (unit_rule_products, g).
                    if length rule = 1 then
                      bindE (lookup (symbols g) (rule ! 0)) (\<lambda>t.
                        if \<not> is_terminal t then
                          bindE (foldE (\<lambda>subrule g.
                                    on_symbol sy (\<lambda>s. BNF_Symbol_add_rule s subrule) g)
                                  (rules t) g) (\<lambda>g'.
                          Inr (set_add (sy, rule ! 0) unit_rule_products, g'))
                        else Inr (unit_rule_products, g))
                    else Inr (unit_rule_products, g)"
  let ?outer = "\<lambda>sy (unit_rule_products, g).
               bindE (lookup (symbols g) sy) (\<lambda>s.
                 foldE (?inner sy) (rules s) (unit_rule_products, g))"
  let ?second = "\<lambda>(parent, product) g.
             bindE (on_symbol parent (\<lambda>s. BNF_Symbol_remove_rule s [product]) g) (\<lambda>g.
             bindE (is_only_subrule_with_daughter g parent product) (\<lambda>only.
               if only then on_symbol product (\<lambda>s. BNF_Symbol_remove_parent s parent) g
               else Inr g))"
  from r obtain prods g1 where
    f1: "foldE ?outer (keys (symbols g)) ([], g) = Inr (prods, g1)"
    and f2: "foldE ?second prods g1 = Inr g'"
    unfolding conversion_unit_def by (auto elim!: bindE_InrE)
  have inner: "I (snd st')" if "I (snd st)" and "?inner sy rule st = Inr st'"
    for sy rule and st st' :: "(pyobj \<times> pyobj) list \<times> BNF"
  proof -
    obtain ps h where st: "st = (ps, h)" by (cases st)
    show ?thesis
    proof (cases "length rule = 1")
      case False
      with that st show ?thesis by auto
    next
      case True
      with that(2) st obtain t :: BNF_Symbol where l: "lookup (symbols h) (rule ! 0) = Inr t"
        and e: "(if \<not> is_terminal t then
                          bindE (foldE (\<lambda>subrule g.
                                    on_symbol sy (\<lambda>s. BNF_Symbol_add_rule s subrule) g)
                                  (rules t) h) (\<lambda>g'.
                          Inr (set_add (sy, rule ! 0) ps, g'))
                        else Inr (ps, h)) = Inr st'"
        by (auto elim!: bindE_InrE)
      show ?thesis
      proof (cases "is_terminal t")
        case True
        with e that(1) st show ?thesis by auto
      next
        case False
        with e obtain h' where ff: "foldE (\<lambda>subrule g.
                                    on_symbol sy (\<lambda>s. BNF_Symbol_add_rule s subrule) g)
                                  (rules t) h = Inr h'"
          and st': "st' = (set_add (sy, rule ! 0) ps, h')"
          by (auto elim!: bindE_InrE)
        have "I h" using that(1) st by simp
        from conversion_unit_inline_preserves[OF sc this l ff] st' show ?thesis by simp
      qed
    qed
  qed
  have "I (snd (prods, g1))"
  proof (rule foldE_preserves[where I = "\<lambda>st. I (snd st)", OF f1], goal_cases)
    case 1
    then show ?case using i by simp
  next
    case (2 sy st st')
    obtain ps h where st: "st = (ps, h)" by (cases st)
    from 2(3) obtain s :: BNF_Symbol where
      ff: "foldE (?inner sy) (rules s) (ps, h) = Inr st'"
      unfolding st by (auto elim!: bindE_InrE)
    show ?case
    proof (rule foldE_preserves[where I = "\<lambda>st. I (snd st)", OF ff], goal_cases)
      case 1
      then show ?case using 2(2) st by simp
    next
      case (2 rule u u')
      show ?case by (rule inner[OF 2(2) 2(3)])
    qed
  qed
  then have i1: "I g1" by simp
  show ?thesis
  proof (rule foldE_preserves[where I = I, OF f2 i1], goal_cases)
    case (1 x t t')
    obtain parent product where x: "x = (parent, product)" by (cases x)
    from 1(3) obtain u only where
      a: "on_symbol parent (\<lambda>s. BNF_Symbol_remove_rule s [product]) t = Inr u"
      and b: "(if only then on_symbol product (\<lambda>s. BNF_Symbol_remove_parent s parent) u
               else Inr u) = Inr t'"
      unfolding x by (auto elim!: bindE_InrE)
    have "I u" by (rule sc_remove_rule[OF sc 1(2) a])
    then show ?case using b sc_remove_parent[OF sc, of u product parent t']
      by (cases only) auto
  qed
qed


section \<open>No rule of arity zero\<close>

lemma fold_preserves:
  assumes "I s" and "\<And>x t. x \<in> set xs \<Longrightarrow> I t \<Longrightarrow> I (f x t)"
  shows "I (fold f xs s)"
  using assms by (induction xs arbitrary: s) auto

lemma on_symbolE:
  assumes "on_symbol k m g = Inr g'"
  obtains s where "map_of (symbols g) k = Some s"
    and "g' = g\<lparr>symbols := AList.update k (snd (m s)) (symbols g)\<rparr>"
  using assms by (auto simp: on_symbol_def split: option.splits)

lemma on_symbol_frame:
  assumes "on_symbol k m g = Inr g'"
  shows "keys (symbols g') = keys (symbols g)"
    and "start_symbol g' = start_symbol g"
    and "current_term_replacement g' = current_term_replacement g"
    and "tags g' = tags g"
  using assms by (auto elim!: on_symbolE simp: keys_update_present)

lemma no_empty_rule_on_symbol:
  assumes ne: "no_empty_rule g" and e: "on_symbol k m g = Inr g'"
    and m: "\<And>s. [] \<notin> set (rules s) \<Longrightarrow> [] \<notin> set (rules (snd (m s)))"
  shows "no_empty_rule g'"
proof -
  from e obtain s where s: "map_of (symbols g) k = Some s"
    and g': "g' = g\<lparr>symbols := AList.update k (snd (m s)) (symbols g)\<rparr>"
    by (rule on_symbolE)
  have "[] \<notin> set (rules (snd (m s)))" using ne s m unfolding no_empty_rule_def by blast
  then show ?thesis using ne unfolding no_empty_rule_def g'
    by (auto simp: update_conv' split: if_splits)
qed

lemma no_empty_rule_new_symbol:
  "no_empty_rule g \<Longrightarrow>
   no_empty_rule (g\<lparr>symbols := AList.update k (BNF_Symbol_init k t) (symbols g)\<rparr>)"
  unfolding no_empty_rule_def
  by (auto simp: update_conv' BNF_Symbol_init_def split: if_splits)

lemma no_empty_rule_ctr [simp]:
  "no_empty_rule (g\<lparr>current_term_replacement := c\<rparr>) = no_empty_rule g"
  by (simp add: no_empty_rule_def)

lemma no_empty_rule_start [simp]:
  "no_empty_rule (g\<lparr>start_symbol := c\<rparr>) = no_empty_rule g"
  by (simp add: no_empty_rule_def)

lemma no_empty_rule_tags [simp]:
  "no_empty_rule (g\<lparr>tags := c\<rparr>) = no_empty_rule g"
  by (simp add: no_empty_rule_def)

lemma no_empty_rule_add_symbol:
  "no_empty_rule g \<Longrightarrow> no_empty_rule (snd (add_symbol g k t))"
  by (simp add: add_symbol_def no_empty_rule_new_symbol)

lemma set_set_add: "set (set_add x xs) = insert x (set xs)"
  by (auto simp: set_add_def)

lemma no_empty_rule_add_rule:
  "no_empty_rule g \<Longrightarrow> r \<noteq> [] \<Longrightarrow>
   on_symbol k (\<lambda>s. BNF_Symbol_add_rule s r) g = Inr g' \<Longrightarrow> no_empty_rule g'"
  by (erule no_empty_rule_on_symbol, assumption)
     (auto simp: BNF_Symbol_add_rule_def set_set_add)

lemma no_empty_rule_remove_rule:
  "no_empty_rule g \<Longrightarrow>
   on_symbol k (\<lambda>s. BNF_Symbol_remove_rule s r) g = Inr g' \<Longrightarrow> no_empty_rule g'"
  by (erule no_empty_rule_on_symbol, assumption)
     (auto simp: BNF_Symbol_remove_rule_def)

lemma no_empty_rule_add_parent:
  "no_empty_rule g \<Longrightarrow>
   on_symbol k (\<lambda>s. BNF_Symbol_add_parent s p) g = Inr g' \<Longrightarrow> no_empty_rule g'"
  by (erule no_empty_rule_on_symbol, assumption)
     (auto simp: BNF_Symbol_add_parent_def)

lemma no_empty_rule_remove_parent:
  "no_empty_rule g \<Longrightarrow>
   on_symbol k (\<lambda>s. BNF_Symbol_remove_parent s p) g = Inr g' \<Longrightarrow> no_empty_rule g'"
  by (erule no_empty_rule_on_symbol, assumption)
     (auto simp: BNF_Symbol_remove_parent_def)

lemma no_empty_rule_replacer:
  assumes ne: "no_empty_rule g" and e: "conversion_term_replacer g t = Inr r"
  shows "no_empty_rule (snd r)"
proof -
  let ?id = "Num (current_term_replacement g)"
  let ?g2 = "g\<lparr>current_term_replacement := current_term_replacement g - 1,
               symbols := AList.update ?id (BNF_Symbol_init ?id False) (symbols g)\<rparr>"
  from e obtain g3 where
    a: "on_symbol ?id (\<lambda>s. BNF_Symbol_add_rule s [t]) ?g2 = Inr g3"
    and b: "on_symbol t (\<lambda>s. BNF_Symbol_add_parent s ?id) g3 = Inr (snd r)"
    unfolding conversion_term_replacer_def Let_def
    by (auto elim!: bindE_InrE)
  have g2: "no_empty_rule ?g2"
    using no_empty_rule_new_symbol[OF ne, of ?id False] by (simp add: no_empty_rule_def)
  have "no_empty_rule g3" by (rule no_empty_rule_add_rule[OF g2 _ a]) simp
  then show ?thesis by (rule no_empty_rule_add_parent[OF _ b])
qed

lemma splitter_result:
  assumes "conversion_bin_splitter g p rule = Inr r"
  shows "snd r = snd (snd (snd (fold (\<lambda>item (replacements, previous_replacement_id, replacement_id, g).
                    let g' = snd (add_symbol g (Num replacement_id) False)
                    in (set_add (previous_replacement_id, item, Num replacement_id) replacements,
                        Num replacement_id,
                        current_term_replacement g',
                        g'\<lparr>current_term_replacement := current_term_replacement g' - 1\<rparr>))
              (take (length rule - 2) rule)
              ([], p, current_term_replacement g,
               g\<lparr>current_term_replacement := current_term_replacement g - 1\<rparr>))))"
  using assms unfolding conversion_bin_splitter_def Let_def
  by (auto split: prod.splits if_splits)

lemma no_empty_rule_splitter:
  assumes ne: "no_empty_rule g" and e: "conversion_bin_splitter g p rule = Inr r"
  shows "no_empty_rule (snd r)"
  unfolding splitter_result[OF e]
  by (rule fold_preserves[where I = "\<lambda>st. no_empty_rule (snd (snd (snd st)))"])
     (auto simp: ne Let_def no_empty_rule_add_symbol)

lemma step_closed_no_empty_rule: "step_closed no_empty_rule (\<lambda>r. r \<noteq> [])"
  unfolding step_closed_def
proof (intro conjI allI impI)
  fix g k s r assume "no_empty_rule g \<and> map_of (symbols g) k = Some s \<and> r \<in> set (rules s)"
  then show "r \<noteq> []" unfolding no_empty_rule_def by blast
qed (auto intro: no_empty_rule_add_rule no_empty_rule_remove_rule no_empty_rule_add_parent
       no_empty_rule_remove_parent no_empty_rule_replacer no_empty_rule_splitter)


lemma add_rule_preserves:
  assumes sc: "step_closed I R" and i: "I g" and rr: "R ms"
    and e: "add_rule g p ms = Inr (c, g')"
  shows "I g'"
proof (cases "g' = g")
  case True
  then show ?thesis using i by simp
next
  case False
  with e obtain g1 where
    a: "on_symbol p (\<lambda>s. BNF_Symbol_add_rule s ms) g = Inr g1"
    and b: "foldE (\<lambda>x. on_symbol x (\<lambda>s. BNF_Symbol_add_parent s p)) ms g1 = Inr g'"
    unfolding add_rule_def
    by (auto elim!: bindE_InrE split: if_splits)
  have "I g1" by (rule sc_add_rule[OF sc i rr a])
  then show ?thesis
    by (rule foldE_preserves[where I = I, OF b]) (rule sc_add_parent[OF sc])
qed

lemma add_rule_to_root_preserves:
  assumes sc: "step_closed I R" and i: "I g" and rr: "R ms"
    and e: "add_rule_to_root g ms = Inr g'"
  shows "I g'"
proof -
  from e obtain g1 where
    a: "on_symbol (Num (start_symbol g)) (\<lambda>s. BNF_Symbol_add_rule s ms) g = Inr g1"
    and b: "foldE (\<lambda>item h. on_symbol item
                (\<lambda>s. BNF_Symbol_add_parent s (Num (start_symbol h))) h) ms g1 = Inr g'"
    unfolding add_rule_to_root_def by (auto elim!: bindE_InrE)
  have "I g1" by (rule sc_add_rule[OF sc i rr a])
  then show ?thesis
    by (rule foldE_preserves[where I = I, OF b]) (rule sc_add_parent[OF sc])
qed

lemma conversion_start_preserves:
  assumes sc: "step_closed I R" and i: "I g"
    and fresh: "\<And>g. I g \<Longrightarrow>
       I (snd (add_intermediate_symbol (g\<lparr>start_symbol := start_symbol g + 1\<rparr>)
                (Num (start_symbol g + 1))))"
    and e: "conversion_start g = Inr g'"
  shows "I g'"
proof (cases "does_start_occur_on_right g")
  case False
  with e i show ?thesis by (simp add: conversion_start_def)
next
  case True
  let ?g2 = "snd (add_intermediate_symbol (g\<lparr>start_symbol := start_symbol g + 1\<rparr>)
                (Num (start_symbol g + 1)))"
  from True e obtain c where
    "add_rule ?g2 (Num (start_symbol ?g2)) [Num (start_symbol ?g2 - 1)] = Inr (c, g')"
    unfolding conversion_start_def Let_def
    by (auto elim!: bindE_InrE)
  then show ?thesis
    by (rule add_rule_preserves[OF sc fresh[OF i] sc_unary[OF sc]])
qed


lemma set_unset_tags_frame:
  "symbols (set_unset_tags g) = symbols g \<and>
   start_symbol (set_unset_tags g) = start_symbol g \<and>
   current_term_replacement (set_unset_tags g) = current_term_replacement g"
proof -
  let ?f = "\<lambda>sy (tag, g).
                    if sy \<notin> set (keys (tags g)) then
                      let tag' = next_free_tag (map snd (tags g)) tag
                      in (tag', g\<lparr>tags := AList.update sy (Num tag') (tags g)\<rparr>)
                    else (tag, g)"
  let ?J = "\<lambda>st :: int \<times> BNF. symbols (snd st) = symbols g \<and>
       start_symbol (snd st) = start_symbol g \<and>
       current_term_replacement (snd st) = current_term_replacement g"
  have "?J (fold ?f (keys (symbols g)) (0, g))"
    by (rule fold_preserves[where I = ?J]) (auto simp: Let_def)
  then show ?thesis
    unfolding set_unset_tags_def Let_def reset_start_symbol_for_cnf_def
    by (auto split: prod.splits)
qed

lemma reachable_invariant:
  assumes sc: "step_closed I R" and init: "I BNF_init"
    and calls: "\<And>c g g'. ok c \<Longrightarrow> I g \<Longrightarrow> run_call c g = Inr g' \<Longrightarrow> I g'"
    and fresh: "\<And>g. I g \<Longrightarrow>
       I (snd (add_intermediate_symbol (g\<lparr>start_symbol := start_symbol g + 1\<rparr>)
                (Num (start_symbol g + 1))))"
    and reset: "\<And>g. I g \<Longrightarrow> I (reset_start_symbol_for_cnf g)"
    and tags: "\<And>g. I g \<Longrightarrow> I (set_unset_tags g)"
    and r: "reachable ok g"
  shows "I g"
  using r
proof (induction rule: reachable.induct)
  case r_init
  show ?case by (rule init)
next
  case (r_call g c g')
  then show ?case using calls by blast
next
  case (r_start g g')
  then show ?case using conversion_start_preserves[OF sc _ fresh] by blast
next
  case (r_term g g')
  then show ?case using conversion_term_preserves[OF sc] by blast
next
  case (r_bin g g')
  then show ?case using conversion_bin_preserves[OF sc] by blast
next
  case (r_del g g')
  then show ?case by (simp add: conversion_del_def)
next
  case (r_unit g g')
  then show ?case using conversion_unit_preserves[OF sc] by blast
next
  case (r_replacer g t r g')
  then show ?case using sc_replacer[OF sc] by blast
next
  case (r_splitter g p rule reps g')
  then show ?case using sc_splitter[OF sc] by blast
next
  case (r_determinalizer g p rule g')
  then show ?case using determinalizer_preserves[OF sc] by blast
next
  case (r_reset g)
  then show ?case using reset by blast
next
  case (r_tags g)
  then show ?case using tags by blast
qed

lemma no_empty_rule_init: "no_empty_rule BNF_init"
  by (simp add: no_empty_rule_def BNF_init_def BNF_Symbol_init_def)

lemma no_empty_rule_set_unset_tags: "no_empty_rule g \<Longrightarrow> no_empty_rule (set_unset_tags g)"
  by (simp add: no_empty_rule_def set_unset_tags_frame)

lemma no_empty_rule_run_call:
  assumes "nonempty_rule_call c" and "no_empty_rule g" and "run_call c g = Inr g'"
  shows "no_empty_rule g'"
proof (cases c)
  case (Add_symbol sy t)
  with assms show ?thesis using no_empty_rule_add_symbol[of g sy t] by auto
next
  case (Add_rule p ms)
  with assms obtain r where "add_rule g p ms = Inr r" and "g' = snd r"
    by (auto elim!: bindE_InrE)
  then have "add_rule g p ms = Inr (fst r, g')" by simp
  moreover have "ms \<noteq> []" using assms(1) Add_rule by (simp add: nonempty_rule_call_def)
  ultimately show ?thesis
    using add_rule_preserves[OF step_closed_no_empty_rule assms(2)] by blast
next
  case (Add_rule_to_root ms)
  with assms have "add_rule_to_root g ms = Inr g'" and "ms \<noteq> []"
    by (simp_all add: nonempty_rule_call_def)
  then show ?thesis
    using add_rule_to_root_preserves[OF step_closed_no_empty_rule assms(2)] by blast
next
  case (Add_tag sy tag)
  with assms show ?thesis by (auto simp: add_tag_def)
next
  case (Symbol_add_rule k ms)
  with assms have "on_symbol k (\<lambda>s. BNF_Symbol_add_rule s ms) g = Inr g'" and "ms \<noteq> []"
    by (simp_all add: nonempty_rule_call_def)
  then show ?thesis
    using sc_add_rule[OF step_closed_no_empty_rule assms(2)] by blast
next
  case (Symbol_remove_rule k ms)
  with assms have "on_symbol k (\<lambda>s. BNF_Symbol_remove_rule s ms) g = Inr g'" by simp
  then show ?thesis by (rule sc_remove_rule[OF step_closed_no_empty_rule assms(2)])
next
  case (Symbol_add_parent k q)
  with assms have "on_symbol k (\<lambda>s. BNF_Symbol_add_parent s q) g = Inr g'" by simp
  then show ?thesis by (rule sc_add_parent[OF step_closed_no_empty_rule assms(2)])
next
  case (Symbol_remove_parent k q)
  with assms have "on_symbol k (\<lambda>s. BNF_Symbol_remove_parent s q) g = Inr g'" by simp
  then show ?thesis by (rule sc_remove_parent[OF step_closed_no_empty_rule assms(2)])
qed

lemma reachable_no_empty_rule:
  "reachable nonempty_rule_call g \<Longrightarrow> no_empty_rule g"
  by (rule reachable_invariant[OF step_closed_no_empty_rule no_empty_rule_init,
        where ok = nonempty_rule_call])
     (auto intro: no_empty_rule_run_call no_empty_rule_set_unset_tags
        simp: add_intermediate_symbol_def no_empty_rule_add_symbol reset_start_symbol_for_cnf_def)


lemma foldE_run_call_reachable:
  assumes "foldE run_call cs g = Inr g'" and "reachable ok g" and "\<forall>c \<in> set cs. ok c"
  shows "reachable ok g'"
  using assms
proof (induction cs arbitrary: g)
  case Nil
  then show ?case by simp
next
  case (Cons c cs)
  from Cons.prems(1) obtain g1 where 1: "run_call c g = Inr g1"
    and 2: "foldE run_call cs g1 = Inr g'"
    by (auto split: sum.splits)
  have "reachable ok g1" using Cons.prems(2,3) 1 by (auto intro: reachable.r_call)
  from Cons.IH[OF 2 this] Cons.prems(3) show ?case by simp
qed

lemma construct_reachable:
  "construct cs = Inr g \<Longrightarrow> \<forall>c \<in> set cs. ok c \<Longrightarrow> reachable ok g"
  unfolding construct_def
  by (rule foldE_run_call_reachable[OF _ reachable.r_init])

text \<open>
  Claim C10, amended. When no call of \<open>add_rule\<close>, \<open>add_rule_to_root\<close> or
  \<open>BNF_Symbol.add_rule\<close> was given an empty member sequence, no symbol's rule set contains
  a rule of arity zero, after every sequence of construction calls and conversion steps.
  None of the three checks the arity: \<open>add_rule\<close> on a declared non-terminal parent and the
  empty sequence stores the rule \<open>()\<close> and returns \<open>0\<close>, and so do \<open>add_rule_to_root()\<close>
  and \<open>symbols[0].add_rule()\<close>.
\<close>

theorem no_arity_zero_rule:
  "reachable nonempty_rule_call g \<Longrightarrow> map_of (symbols g) k = Some s \<Longrightarrow> [] \<notin> set (rules s)"
  using reachable_no_empty_rule[of g] unfolding no_empty_rule_def by blast

theorem no_arity_zero_rule_witness:
  "reachable nonempty_rule_call grammar_unit_inlined \<and>
   map_of (symbols grammar_unit_inlined) (Num 0) =
     Some \<lparr>symbol = Num 0, rules = [[Str ''a'']], parents = [], is_terminal = False\<rparr> \<and>
   [] \<notin> set (rules \<lparr>symbol = Num 0, rules = [[Str ''a'']], parents = [], is_terminal = False\<rparr>)"
proof -
  have "\<forall>c \<in> set calls_unit. nonempty_rule_call c"
    by (simp add: calls_unit_def nonempty_rule_call_def)
  with construct_unit have "reachable nonempty_rule_call grammar_unit"
    by (rule construct_reachable)
  moreover have "conversion_unit grammar_unit = Inr grammar_unit_inlined"
    by code_simp
  ultimately have r: "reachable nonempty_rule_call grammar_unit_inlined"
    by (rule reachable.r_unit)
  have m: "map_of (symbols grammar_unit_inlined) (Num 0) =
     Some \<lparr>symbol = Num 0, rules = [[Str ''a'']], parents = [], is_terminal = False\<rparr>"
    by (simp add: grammar_unit_inlined_def)
  from no_arity_zero_rule[OF r m] r m show ?thesis by simp
qed

theorem no_arity_zero_rule_counterexample:
  "construct [Add_rule (Num 0) []] = Inr grammar_eps \<and>
   add_rule BNF_init (Num 0) [] = Inr (0, grammar_eps) \<and>
   add_rule_to_root BNF_init [] = Inr grammar_eps \<and>
   construct [Symbol_add_rule (Num 0) []] = Inr grammar_eps \<and>
   map_option rules (map_of (symbols grammar_eps) (Num 0)) = Some [[]]"
proof (intro conjI)
  show "construct [Add_rule (Num 0) []] = Inr grammar_eps" by code_simp
  show "add_rule BNF_init (Num 0) [] = Inr (0, grammar_eps)" by code_simp
  show "add_rule_to_root BNF_init [] = Inr grammar_eps" by code_simp
  show "construct [Symbol_add_rule (Num 0) []] = Inr grammar_eps" by code_simp
  show "map_option rules (map_of (symbols grammar_eps) (Num 0)) = Some [[]]"
    by (simp add: grammar_eps_def)
qed

section \<open>The shape of the grammar when the loop exits\<close>












section \<open>The rules copied into the PhraseStructure\<close>

text \<open>
  \<open>create_phrase_structure\<close> copies a rule into the PhraseStructure only when its length is
  one or two, so a rule of arity zero that the loop left in the grammar is not part of
  the PhraseStructure.
\<close>

lemma on_ps_symbolE:
  assumes "on_ps_symbol k m ps = Inr ps'"
  obtains s where "map_of (ps_symbols ps) k = Some s"
    and "ps' = ps\<lparr>ps_symbols := AList.update k (m s) (ps_symbols ps)\<rparr>"
  using assms by (auto simp: on_ps_symbol_def split: option.splits)

lemma ps_arity_ok_on_ps_symbol:
  assumes ok: "ps_arity_ok ps" and e: "on_ps_symbol k m ps = Inr ps'"
    and m: "\<And>s. \<forall>r \<in> set (rules s). length r = 1 \<or> length r = 2 \<Longrightarrow>
                 \<forall>r \<in> set (rules (m s)). length r = 1 \<or> length r = 2"
  shows "ps_arity_ok ps'"
proof -
  from e obtain s where s: "map_of (ps_symbols ps) k = Some s"
    and ps': "ps' = ps\<lparr>ps_symbols := AList.update k (m s) (ps_symbols ps)\<rparr>"
    by (rule on_ps_symbolE)
  have "\<forall>r \<in> set (rules (m s)). length r = 1 \<or> length r = 2"
    using ok s m unfolding ps_arity_ok_def by blast
  then show ?thesis using ok unfolding ps_arity_ok_def ps'
    by (auto simp: update_conv' split: if_splits)
qed

lemma ps_arity_ok_add_symbol:
  "ps_arity_ok ps \<Longrightarrow> ps_arity_ok (PhraseStructure_add_symbol ps k t)"
  unfolding ps_arity_ok_def PhraseStructure_add_symbol_def
  by (auto simp: update_conv' BNF_Symbol_init_def split: if_splits)

lemma ps_arity_ok_add_intermediate_rule:
  assumes "ps_arity_ok ps" and "add_intermediate_rule ps p a b = Inr ps'"
  shows "ps_arity_ok ps'"
proof -
  from assms(2) obtain ps1 ps2 where
    1: "on_ps_symbol p (\<lambda>s. s\<lparr>rules := set_add [a, b] (rules s)\<rparr>) ps = Inr ps1"
    and 2: "on_ps_symbol a (\<lambda>s. s\<lparr>parents := set_add p (parents s)\<rparr>) ps1 = Inr ps2"
    and 3: "on_ps_symbol b (\<lambda>s. s\<lparr>parents := set_add p (parents s)\<rparr>) ps2 = Inr ps'"
    unfolding add_intermediate_rule_def by (auto elim!: bindE_InrE)
  have "ps_arity_ok ps1"
    by (rule ps_arity_ok_on_ps_symbol[OF assms(1) 1]) (auto simp: set_set_add)
  then have "ps_arity_ok ps2"
    by (rule ps_arity_ok_on_ps_symbol[OF _ 2]) auto
  then show ?thesis
    by (rule ps_arity_ok_on_ps_symbol[OF _ 3]) auto
qed

lemma ps_arity_ok_add_terminal_rule:
  assumes "ps_arity_ok ps" and "add_terminal_rule ps p a = Inr ps'"
  shows "ps_arity_ok ps'"
proof -
  from assms(2) obtain ps1 where
    1: "on_ps_symbol p (\<lambda>s. s\<lparr>rules := set_add [a] (rules s)\<rparr>) ps = Inr ps1"
    and 2: "on_ps_symbol a (\<lambda>s. s\<lparr>parents := set_add p (parents s)\<rparr>) ps1 = Inr ps'"
    unfolding add_terminal_rule_def by (auto elim!: bindE_InrE)
  have "ps_arity_ok ps1"
    by (rule ps_arity_ok_on_ps_symbol[OF assms(1) 1]) (auto simp: set_set_add)
  then show ?thesis
    by (rule ps_arity_ok_on_ps_symbol[OF _ 2]) auto
qed

lemma create_phrase_structure_arity:
  assumes "create_phrase_structure g = Inr ps"
  shows "ps_arity_ok ps"
proof -
  let ?g = "set_unset_tags g"
  from assms obtain ps1 where
    1: "foldE (\<lambda>sy ps.
                bindE (lookup (tags ?g) sy) (\<lambda>symbol_tag.
                bindE (lookup (symbols ?g) sy) (\<lambda>s.
                Inr (PhraseStructure_add_symbol ps symbol_tag (is_terminal s)))))
              (keys (symbols ?g)) PhraseStructure_init = Inr ps1"
    and 2: "foldE (\<lambda>sy ps.
         bindE (lookup (tags ?g) sy) (\<lambda>symbol_tag.
         bindE (lookup (symbols ?g) sy) (\<lambda>s.
           foldE (\<lambda>rule ps.
              if length rule = 2 then
                bindE (lookup (tags ?g) (rule ! 0)) (\<lambda>t0.
                bindE (lookup (tags ?g) (rule ! 1)) (\<lambda>t1.
                add_intermediate_rule ps symbol_tag t0 t1))
              else if length rule = 1 then
                bindE (lookup (tags ?g) (rule ! 0)) (\<lambda>t0.
                add_terminal_rule ps symbol_tag t0)
              else Inr ps)
             (rules s) ps)))
        (keys (symbols ?g)) ps1 = Inr ps"
    unfolding create_phrase_structure_def Let_def by (auto elim!: bindE_InrE)
  have 0: "ps_arity_ok PhraseStructure_init"
    by (simp add: ps_arity_ok_def PhraseStructure_init_def)
  have a: "ps_arity_ok ps1"
    by (rule foldE_preserves[where I = ps_arity_ok, OF 1 0])
       (auto elim!: bindE_InrE simp: ps_arity_ok_add_symbol)
  show ?thesis
  proof (rule foldE_preserves[where I = ps_arity_ok, OF 2 a], goal_cases)
    case (1 sy t t')
    from 1(3) obtain symbol_tag and s :: BNF_Symbol where
      f: "foldE (\<lambda>rule ps.
              if length rule = 2 then
                bindE (lookup (tags ?g) (rule ! 0)) (\<lambda>t0.
                bindE (lookup (tags ?g) (rule ! 1)) (\<lambda>t1.
                add_intermediate_rule ps symbol_tag t0 t1))
              else if length rule = 1 then
                bindE (lookup (tags ?g) (rule ! 0)) (\<lambda>t0.
                add_terminal_rule ps symbol_tag t0)
              else Inr ps)
             (rules s) t = Inr t'"
      by (auto elim!: bindE_InrE)
    show ?case
      by (rule foldE_preserves[where I = ps_arity_ok, OF f 1(2)])
         (auto elim!: bindE_InrE split: if_splits
            intro: ps_arity_ok_add_intermediate_rule ps_arity_ok_add_terminal_rule)
  qed
qed

section \<open>The synthetic namespaces\<close>

lemma keys_update_set: "set (keys (AList.update k v d)) = insert k (set (keys d))"
  by (auto simp: keys_def update_keys)

lemma namespaces_apart_on_symbol:
  "namespaces_apart g \<Longrightarrow> on_symbol k m g = Inr g' \<Longrightarrow> namespaces_apart g'"
  unfolding namespaces_apart_def by (simp add: on_symbol_frame)

lemma namespaces_apart_replacer:
  assumes ns: "namespaces_apart g" and e: "conversion_term_replacer g t = Inr r"
  shows "namespaces_apart (snd r)"
proof -
  let ?id = "Num (current_term_replacement g)"
  let ?g2 = "g\<lparr>current_term_replacement := current_term_replacement g - 1,
               symbols := AList.update ?id (BNF_Symbol_init ?id False) (symbols g)\<rparr>"
  from e obtain g3 where
    a: "on_symbol ?id (\<lambda>s. BNF_Symbol_add_rule s [t]) ?g2 = Inr g3"
    and b: "on_symbol t (\<lambda>s. BNF_Symbol_add_parent s ?id) g3 = Inr (snd r)"
    unfolding conversion_term_replacer_def Let_def
    by (auto elim!: bindE_InrE)
  have "namespaces_apart ?g2"
    using ns unfolding namespaces_apart_def by (auto simp: keys_update_set)
  then have "namespaces_apart g3" using a by (rule namespaces_apart_on_symbol)
  then show ?thesis using b by (rule namespaces_apart_on_symbol)
qed

lemma keys_add_symbol:
  "set (keys (symbols (snd (add_symbol g k t)))) = insert k (set (keys (symbols g)))"
  by (auto simp: add_symbol_def keys_update_set)

lemma add_symbol_frame:
  "start_symbol (snd (add_symbol g k t)) = start_symbol g"
  "current_term_replacement (snd (add_symbol g k t)) = current_term_replacement g"
  by (simp_all add: add_symbol_def)

lemma namespaces_apart_splitter:
  assumes ns: "namespaces_apart g" and e: "conversion_bin_splitter g p rule = Inr r"
  shows "namespaces_apart (snd r)"
proof -
  let ?J = "\<lambda>st :: (pyobj \<times> pyobj \<times> pyobj) list \<times> pyobj \<times> int \<times> BNF.
      case st of (reps, prev, rid, h) \<Rightarrow>
        rid = current_term_replacement h + 1 \<and> rid < 0 \<and> 0 \<le> start_symbol h \<and>
        (\<forall>n. Num n \<in> set (keys (symbols h)) \<longrightarrow> rid < n \<and> n \<le> start_symbol h)"
  let ?f = "\<lambda>item (replacements, previous_replacement_id, replacement_id, g).
                    let g' = snd (add_symbol g (Num replacement_id) False)
                    in (set_add (previous_replacement_id, item, Num replacement_id) replacements,
                        Num replacement_id,
                        current_term_replacement g',
                        g'\<lparr>current_term_replacement := current_term_replacement g' - 1\<rparr>)"
  let ?st0 = "([], p, current_term_replacement g,
               g\<lparr>current_term_replacement := current_term_replacement g - 1\<rparr>)"
  have "?J (fold ?f (take (length rule - 2) rule) ?st0)"
  proof (rule fold_preserves[where I = ?J], goal_cases)
    case 1
    show ?case using ns unfolding namespaces_apart_def by auto
  next
    case (2 x st)
    obtain reps prev rid h where st: "st = (reps, prev, rid, h)" by (cases st)
    from 2(2) show ?case unfolding st
      by (auto simp: Let_def keys_add_symbol add_symbol_frame)
  qed
  then show ?thesis
    unfolding splitter_result[OF e] namespaces_apart_def
    by (auto split: prod.splits)
qed

lemma step_closed_namespaces_apart: "step_closed namespaces_apart (\<lambda>r. True)"
  unfolding step_closed_def
proof (intro conjI allI impI)
  fix g t r assume "namespaces_apart g \<and> conversion_term_replacer g t = Inr r"
  then show "namespaces_apart (snd r)" using namespaces_apart_replacer by blast
next
  fix g p rule r assume "namespaces_apart g \<and> conversion_bin_splitter g p rule = Inr r"
  then show "namespaces_apart (snd r)" using namespaces_apart_splitter by blast
qed (auto intro: namespaces_apart_on_symbol)

lemma namespaces_apart_init: "namespaces_apart BNF_init"
  by (simp add: namespaces_apart_def BNF_init_def keys_def)

lemma namespaces_apart_new_start:
  "namespaces_apart g \<Longrightarrow>
   namespaces_apart (snd (add_intermediate_symbol (g\<lparr>start_symbol := start_symbol g + 1\<rparr>)
                (Num (start_symbol g + 1))))"
  unfolding namespaces_apart_def add_intermediate_symbol_def
  by (auto simp: keys_add_symbol add_symbol_frame)

lemma namespaces_apart_set_unset_tags:
  "namespaces_apart g \<Longrightarrow> namespaces_apart (set_unset_tags g)"
  by (simp add: namespaces_apart_def set_unset_tags_frame)

lemma namespaces_apart_reset:
  "namespaces_apart g \<Longrightarrow> namespaces_apart (reset_start_symbol_for_cnf g)"
  by (simp add: namespaces_apart_def reset_start_symbol_for_cnf_def)

lemma namespaces_apart_run_call:
  assumes "non_integer_symbol_call c" and "namespaces_apart g" and "run_call c g = Inr g'"
  shows "namespaces_apart g'"
proof (cases c)
  case (Add_symbol sy t)
  with assms(1) have "\<forall>n. sy \<noteq> Num n"
    by (auto simp: non_integer_symbol_call_def)
  with assms(2,3) Add_symbol show ?thesis
    unfolding namespaces_apart_def by (auto simp: keys_add_symbol add_symbol_frame)
next
  case (Add_rule p ms)
  with assms obtain r where "add_rule g p ms = Inr r" and "g' = snd r"
    by (auto elim!: bindE_InrE)
  then have "add_rule g p ms = Inr (fst r, g')" by simp
  then show ?thesis
    using add_rule_preserves[OF step_closed_namespaces_apart assms(2)] by blast
next
  case (Add_rule_to_root ms)
  with assms have "add_rule_to_root g ms = Inr g'" by simp
  then show ?thesis
    using add_rule_to_root_preserves[OF step_closed_namespaces_apart assms(2)] by blast
next
  case (Add_tag sy tag)
  with assms show ?thesis by (auto simp: add_tag_def namespaces_apart_def)
next
  case (Symbol_add_rule k ms)
  with assms have "on_symbol k (\<lambda>s. BNF_Symbol_add_rule s ms) g = Inr g'" by simp
  then show ?thesis
    using sc_add_rule[OF step_closed_namespaces_apart assms(2)] by blast
next
  case (Symbol_remove_rule k ms)
  with assms have "on_symbol k (\<lambda>s. BNF_Symbol_remove_rule s ms) g = Inr g'" by simp
  then show ?thesis by (rule sc_remove_rule[OF step_closed_namespaces_apart assms(2)])
next
  case (Symbol_add_parent k q)
  with assms have "on_symbol k (\<lambda>s. BNF_Symbol_add_parent s q) g = Inr g'" by simp
  then show ?thesis by (rule sc_add_parent[OF step_closed_namespaces_apart assms(2)])
next
  case (Symbol_remove_parent k q)
  with assms have "on_symbol k (\<lambda>s. BNF_Symbol_remove_parent s q) g = Inr g'" by simp
  then show ?thesis by (rule sc_remove_parent[OF step_closed_namespaces_apart assms(2)])
qed

lemma reachable_namespaces_apart:
  "reachable non_integer_symbol_call g \<Longrightarrow> namespaces_apart g"
  by (rule reachable_invariant[OF step_closed_namespaces_apart namespaces_apart_init,
        where ok = non_integer_symbol_call])
     (auto intro: namespaces_apart_run_call namespaces_apart_set_unset_tags
        namespaces_apart_new_start namespaces_apart_reset)


lemma keys_update_append:
  "k \<notin> set (keys d) \<Longrightarrow> keys (AList.update k v d) = keys d @ [k]"
  by (simp add: keys_def update_keys)

lemma keys_add_symbol_append:
  "k \<notin> set (keys (symbols g)) \<Longrightarrow>
   keys (symbols (snd (add_symbol g k t))) = keys (symbols g) @ [k]"
  by (simp add: add_symbol_def keys_update_append)

lemma namespaces_apart_fresh:
  assumes "namespaces_apart g"
  shows "Num (current_term_replacement g) \<notin> set (keys (symbols g))"
    and "Num (start_symbol g + 1) \<notin> set (keys (symbols g))"
  using assms unfolding namespaces_apart_def by fastforce+

lemma replacer_appends:
  assumes ns: "namespaces_apart g" and e: "conversion_term_replacer g t = Inr (r, g')"
  shows "r = Num (current_term_replacement g) \<and> r \<notin> set (keys (symbols g)) \<and>
         keys (symbols g') = keys (symbols g) @ [r]"
proof -
  let ?id = "Num (current_term_replacement g)"
  let ?g2 = "g\<lparr>current_term_replacement := current_term_replacement g - 1,
               symbols := AList.update ?id (BNF_Symbol_init ?id False) (symbols g)\<rparr>"
  from e obtain g3 where
    a: "on_symbol ?id (\<lambda>s. BNF_Symbol_add_rule s [t]) ?g2 = Inr g3"
    and b: "on_symbol t (\<lambda>s. BNF_Symbol_add_parent s ?id) g3 = Inr g'"
    and r: "r = ?id"
    unfolding conversion_term_replacer_def Let_def
    by (auto elim!: bindE_InrE)
  have fresh: "?id \<notin> set (keys (symbols g))" by (rule namespaces_apart_fresh(1)[OF ns])
  then have "keys (symbols ?g2) = keys (symbols g) @ [?id]"
    by (simp add: keys_update_append)
  then have "keys (symbols g') = keys (symbols g) @ [?id]"
    using on_symbol_frame(1)[OF a] on_symbol_frame(1)[OF b] by simp
  with r fresh show ?thesis by simp
qed

lemma add_rule_keys:
  assumes "add_rule g p ms = Inr (c, g')"
  shows "keys (symbols g') = keys (symbols g)"
proof (cases "g' = g")
  case True
  then show ?thesis by simp
next
  case False
  with assms obtain g1 where
    a: "on_symbol p (\<lambda>s. BNF_Symbol_add_rule s ms) g = Inr g1"
    and b: "foldE (\<lambda>x. on_symbol x (\<lambda>s. BNF_Symbol_add_parent s p)) ms g1 = Inr g'"
    unfolding add_rule_def
    by (auto elim!: bindE_InrE split: if_splits)
  have "keys (symbols g1) = keys (symbols g)" by (rule on_symbol_frame(1)[OF a])
  then show ?thesis
    by (rule foldE_preserves[where I = "\<lambda>h. keys (symbols h) = keys (symbols g)", OF b])
       (simp add: on_symbol_frame)
qed

lemma start_appends:
  assumes ns: "namespaces_apart g" and occ: "does_start_occur_on_right g"
    and e: "conversion_start g = Inr g'"
  shows "Num (start_symbol g + 1) \<notin> set (keys (symbols g)) \<and>
         keys (symbols g') = keys (symbols g) @ [Num (start_symbol g + 1)]"
proof -
  let ?g2 = "snd (add_intermediate_symbol (g\<lparr>start_symbol := start_symbol g + 1\<rparr>)
                (Num (start_symbol g + 1)))"
  from occ e obtain c where
    ar: "add_rule ?g2 (Num (start_symbol ?g2)) [Num (start_symbol ?g2 - 1)] = Inr (c, g')"
    unfolding conversion_start_def Let_def
    by (auto elim!: bindE_InrE)
  have fresh: "Num (start_symbol g + 1) \<notin> set (keys (symbols g))"
    by (rule namespaces_apart_fresh(2)[OF ns])
  then have "keys (symbols ?g2) = keys (symbols g) @ [Num (start_symbol g + 1)]"
    unfolding add_intermediate_symbol_def
    using keys_add_symbol_append[of "Num (start_symbol g + 1)"
        "g\<lparr>start_symbol := start_symbol g + 1\<rparr>" False]
    by simp
  with add_rule_keys[OF ar] fresh show ?thesis by simp
qed

lemma splitter_fold_appends:
  fixes h :: BNF
  assumes "rid = current_term_replacement h + 1"
    and "\<forall>n. Num n \<in> set (keys (symbols h)) \<longrightarrow> rid < n"
  shows "keys (symbols (snd (snd (snd
           (fold (\<lambda>item (replacements, previous_replacement_id, replacement_id, g).
                    let g' = snd (add_symbol g (Num replacement_id) False)
                    in (set_add (previous_replacement_id, item, Num replacement_id) replacements,
                        Num replacement_id,
                        current_term_replacement g',
                        g'\<lparr>current_term_replacement := current_term_replacement g' - 1\<rparr>))
              items (reps, prev, rid, h)))))) =
         keys (symbols h) @ map (\<lambda>i. Num (rid - int i)) [0..<length items]"
  using assms
proof (induction items arbitrary: reps prev rid h)
  case Nil
  then show ?case by simp
next
  case (Cons x xs)
  let ?h1 = "snd (add_symbol h (Num rid) False)"
  let ?h2 = "?h1\<lparr>current_term_replacement := current_term_replacement ?h1 - 1\<rparr>"
  have fresh: "Num rid \<notin> set (keys (symbols h))" using Cons.prems(2) by auto
  have k2: "keys (symbols ?h2) = keys (symbols h) @ [Num rid]"
    using keys_add_symbol_append[OF fresh] by simp
  have c1: "current_term_replacement ?h1 = rid - 1"
    using Cons.prems(1) by (simp add: add_symbol_frame)
  have a1: "rid - 1 = current_term_replacement ?h2 + 1" using c1 by simp
  have a2: "\<forall>n. Num n \<in> set (keys (symbols ?h2)) \<longrightarrow> rid - 1 < n"
    using Cons.prems(2) k2 by auto
  have "map (\<lambda>i. Num (rid - int i)) [0..<length (x # xs)] =
        Num rid # map (\<lambda>i. Num (rid - 1 - int i)) [0..<length xs]"
    by (simp add: map_upt_Suc del: upt_Suc)
  then show ?case
    using Cons.IH[OF a1 a2, of "set_add (prev, x, Num rid) reps" "Num rid"] k2 c1
    by (simp add: Let_def)
qed

lemma splitter_appends:
  assumes ns: "namespaces_apart g" and e: "conversion_bin_splitter g p rule = Inr (reps, g')"
  shows "keys (symbols g') = keys (symbols g) @
           map (\<lambda>i. Num (current_term_replacement g - int i)) [0..<length rule - 2]"
proof -
  have "\<forall>n. Num n \<in> set (keys (symbols g)) \<longrightarrow> current_term_replacement g < n"
    using ns unfolding namespaces_apart_def by blast
  then show ?thesis
    using splitter_result[OF e]
      splitter_fold_appends[of "current_term_replacement g"
        "g\<lparr>current_term_replacement := current_term_replacement g - 1\<rparr>"
        "take (length rule - 2) rule" "[]" p]
    by simp
qed


text \<open>
  Claim C6, amended. When the caller declares no integer as a symbol (as the docstring of
  \<open>BNF\<close> asks), then in every grammar reachable by construction calls and conversion steps
  the integer keys lie strictly above \<open>current_term_replacement\<close>, which is negative, and
  up to \<open>start_symbol\<close>, which is not. Hence every allocation takes an identity that is
  not yet a key: \<open>conversion_term_replacer\<close> and \<open>conversion_bin_splitter\<close> append their
  synthetic symbols to the symbol table as new keys, all negative, and \<open>conversion_start\<close>
  appends the new start symbol, which is positive; no caller symbol is an integer.
\<close>

theorem synthetic_namespaces_apart:
  assumes "reachable non_integer_symbol_call g"
  shows "current_term_replacement g < 0 \<and> 0 \<le> start_symbol g \<and>
    (\<forall>n. Num n \<in> set (keys (symbols g)) \<longrightarrow>
       current_term_replacement g < n \<and> n \<le> start_symbol g) \<and>
    (\<forall>t r g'. conversion_term_replacer g t = Inr (r, g') \<longrightarrow>
       r = Num (current_term_replacement g) \<and> r \<notin> set (keys (symbols g)) \<and>
       keys (symbols g') = keys (symbols g) @ [r]) \<and>
    (\<forall>p rule reps g'. conversion_bin_splitter g p rule = Inr (reps, g') \<longrightarrow>
       keys (symbols g') = keys (symbols g) @
         map (\<lambda>i. Num (current_term_replacement g - int i)) [0..<length rule - 2]) \<and>
    (\<forall>g'. does_start_occur_on_right g \<and> conversion_start g = Inr g' \<longrightarrow>
       Num (start_symbol g + 1) \<notin> set (keys (symbols g)) \<and>
       keys (symbols g') = keys (symbols g) @ [Num (start_symbol g + 1)])"
proof -
  have ns: "namespaces_apart g" by (rule reachable_namespaces_apart[OF assms])
  have 1: "current_term_replacement g < 0 \<and> 0 \<le> start_symbol g \<and>
    (\<forall>n. Num n \<in> set (keys (symbols g)) \<longrightarrow>
       current_term_replacement g < n \<and> n \<le> start_symbol g)"
    using ns unfolding namespaces_apart_def by blast
  have 2: "\<forall>t r g'. conversion_term_replacer g t = Inr (r, g') \<longrightarrow>
       r = Num (current_term_replacement g) \<and> r \<notin> set (keys (symbols g)) \<and>
       keys (symbols g') = keys (symbols g) @ [r]"
    using replacer_appends[OF ns] by blast
  have 3: "\<forall>p rule reps g'. conversion_bin_splitter g p rule = Inr (reps, g') \<longrightarrow>
       keys (symbols g') = keys (symbols g) @
         map (\<lambda>i. Num (current_term_replacement g - int i)) [0..<length rule - 2]"
    using splitter_appends[OF ns] by blast
  have 4: "\<forall>g'. does_start_occur_on_right g \<and> conversion_start g = Inr g' \<longrightarrow>
       Num (start_symbol g + 1) \<notin> set (keys (symbols g)) \<and>
       keys (symbols g') = keys (symbols g) @ [Num (start_symbol g + 1)]"
    using start_appends[OF ns] by blast
  from 1 2 3 4 show ?thesis by blast
qed

theorem synthetic_namespaces_apart_witness:
  "reachable non_integer_symbol_call grammar_mixed_term \<and>
   current_term_replacement grammar_mixed_term < 0 \<and> 0 \<le> start_symbol grammar_mixed_term \<and>
   Num (- 1) \<in> set (keys (symbols grammar_mixed_term)) \<and>
   current_term_replacement grammar_mixed_term < - 1 \<and> - 1 \<le> start_symbol grammar_mixed_term \<and>
   conversion_term_replacer grammar_mixed_term (Str ''a'') = Inr (Num (- 2), grammar_mixed_replaced) \<and>
   Num (- 2) \<notin> set (keys (symbols grammar_mixed_term)) \<and>
   keys (symbols grammar_mixed_replaced) = keys (symbols grammar_mixed_term) @ [Num (- 2)]"
proof -
  have "\<forall>c \<in> set calls_mixed. non_integer_symbol_call c"
    by (simp add: calls_mixed_def non_integer_symbol_call_def)
  with construct_mixed have "reachable non_integer_symbol_call grammar_mixed"
    by (rule construct_reachable)
  moreover have "conversion_term grammar_mixed = Inr grammar_mixed_term"
    by code_simp
  ultimately have r: "reachable non_integer_symbol_call grammar_mixed_term"
    by (rule reachable.r_term)
  have k: "Num (- 1) \<in> set (keys (symbols grammar_mixed_term))"
    by (simp add: grammar_mixed_term_def keys_def)
  have e: "conversion_term_replacer grammar_mixed_term (Str ''a'')
     = Inr (Num (- 2), grammar_mixed_replaced)"
    by code_simp
  from synthetic_namespaces_apart[OF r] r k e show ?thesis by auto
qed

theorem synthetic_namespaces_apart_counterexample:
  "construct calls_clash = Inr grammar_clash \<and>
   conversion_term grammar_clash = Inr grammar_clash_term \<and>
   map_of (symbols grammar_clash) (Num (- 1)) =
     Some \<lparr>symbol = Num (- 1), rules = [], parents = [], is_terminal = True\<rparr> \<and>
   map_of (symbols grammar_clash_term) (Num (- 1)) =
     Some \<lparr>symbol = Num (- 1), rules = [[Str ''a'']], parents = [], is_terminal = False\<rparr> \<and>
   keys (symbols grammar_clash_term) = keys (symbols grammar_clash)"
proof (intro conjI)
  show "construct calls_clash = Inr grammar_clash" by code_simp
  show "conversion_term grammar_clash = Inr grammar_clash_term" by code_simp
  show "map_of (symbols grammar_clash) (Num (- 1)) =
     Some \<lparr>symbol = Num (- 1), rules = [], parents = [], is_terminal = True\<rparr>"
    by (simp add: grammar_clash_def)
  show "map_of (symbols grammar_clash_term) (Num (- 1)) =
     Some \<lparr>symbol = Num (- 1), rules = [[Str ''a'']], parents = [], is_terminal = False\<rparr>"
    by (simp add: grammar_clash_term_def)
  show "keys (symbols grammar_clash_term) = keys (symbols grammar_clash)"
    by (simp add: grammar_clash_term_def grammar_clash_def keys_def)
qed

end
